theory Spec2Isabelle
  imports Complex_Main "HOL-Library.Multiset"
begin

section \<open>The notebook's training code, embedded\<close>

text \<open>
  The notebook \<^verbatim>\<open>DSC_Workshop_Neural_Nets.ipynb\<close> defines two functions, \<^verbatim>\<open>train\<close>
  and \<^verbatim>\<open>test\<close>, and runs them in an epoch loop (twice: the demonstration loop and the
  exercise copy). Everything else is a call into PyTorch. The embedding keeps the control
  flow of the three pieces of code and takes the library as follows.

  \<^item> Python floats are exact reals here: rounding is outside the model.
  \<^item> A parameter tensor carries its own \<^verbatim>\<open>.grad\<close>, as in PyTorch; the tensors of
    \<^verbatim>\<open>model.parameters()\<close> are flattened into one list of scalars.
  \<^item> The network's forward pass, the loss function and the differentiation engine are
    collaborators, passed as functions. \<^verbatim>\<open>NeuralNetwork.forward\<close> is Flatten, Linear
    and ReLU layers only, which act on every sample of a batch on its own, so
    \<^verbatim>\<open>model(X)\<close> is the row-wise image of a per-sample score function.
  \<^item> Every library call with an effect is also logged, in order, in a trace.
  \<^item> \<^verbatim>\<open>.to(device)\<close> moves a tensor and keeps its value: it is the identity here.
\<close>

subsection \<open>Errors\<close>

datatype error = ZeroDivisionError | IndexError

text \<open>Python's true division \<^verbatim>\<open>a / n\<close> of a number by an integer count.\<close>

definition truediv :: "real \<Rightarrow> nat \<Rightarrow> error + real" where
  "truediv a n = (if n = 0 then Inl ZeroDivisionError else Inr (a / real n))"

subsection \<open>Data loading\<close>

text \<open>
  \<^verbatim>\<open>DataLoader(dataset, batch_size=batch_size, shuffle=..., num_workers=0)\<close>. The
  dataset is a list of (image, label) samples; labels are class indices.
\<close>

record 'x dataloader =
  dataset :: "('x \<times> nat) list"
  batch_size :: nat
  shuffle :: bool

text \<open>
  Modelled from the spec: the library's batching, which is not part of the notebook. With
  the default \<^verbatim>\<open>drop_last=False\<close> partial batches are kept, so the loader yields
  consecutive groups of \<^verbatim>\<open>batch_size\<close> samples, the last one possibly shorter, and
  its \<^verbatim>\<open>len\<close> is \<^verbatim>\<open>(n + batch_size - 1) // batch_size\<close>.
\<close>

function chunks :: "nat \<Rightarrow> 'a list \<Rightarrow> 'a list list" where
  "chunks b xs = (if b = 0 \<or> xs = [] then [] else take b xs # chunks b (drop b xs))"
  by pat_completeness auto
termination
  by (relation "measure (\<lambda>(b, xs). length xs)") auto

declare chunks.simps [simp del]

definition len_dataloader :: "'x dataloader \<Rightarrow> nat" where
  "len_dataloader dl = (length (dataset dl) + batch_size dl - 1) div batch_size dl"

text \<open>
  One iteration over the loader. With \<^verbatim>\<open>shuffle=True\<close> the sampler draws a fresh
  order of the samples; \<open>order\<close> is that draw. With \<^verbatim>\<open>shuffle=False\<close> the order is
  the dataset's own.
\<close>

definition iter_dataloader ::
  "'x dataloader \<Rightarrow> (('x \<times> nat) list \<Rightarrow> ('x \<times> nat) list) \<Rightarrow> ('x \<times> nat) list list" where
  "iter_dataloader dl order =
     chunks (batch_size dl) (if shuffle dl then order (dataset dl) else dataset dl)"

subsection \<open>Model, loss, optimizer\<close>

record param =
  data :: real
  grad :: real

datatype 'x event =
    ModelTrain | ModelEval | NoGradEnter | NoGradExit
  | ModelCall "'x list" | LossCall | ZeroGrad | Backward | OptimizerStep

record 'x net =
  parameters :: "param list"
  training :: bool
  trace :: "'x event list"

text \<open>
  The collaborators: \<open>forward mode w x\<close> is the score row of sample \<open>x\<close> under the
  weights \<open>w\<close> (and the train/eval mode); \<open>loss_fn pred y\<close> is the scalar loss of a
  batch; \<open>grad_fn mode w X y i\<close> is the partial derivative of that batch's loss in the
  \<open>i\<close>-th weight, what reverse-mode differentiation computes.
\<close>

record 'x collab =
  forward :: "bool \<Rightarrow> real list \<Rightarrow> 'x \<Rightarrow> real list"
  loss_fn :: "real list list \<Rightarrow> nat list \<Rightarrow> real"
  grad_fn :: "bool \<Rightarrow> real list \<Rightarrow> 'x list \<Rightarrow> nat list \<Rightarrow> nat \<Rightarrow> real"

definition log_event :: "'x event \<Rightarrow> 'x net \<Rightarrow> 'x net" where
  "log_event e m = m\<lparr>trace := trace m @ [e]\<rparr>"

definition model_train :: "'x net \<Rightarrow> 'x net" where
  "model_train m = log_event ModelTrain (m\<lparr>training := True\<rparr>)"

definition model_eval :: "'x net \<Rightarrow> 'x net" where
  "model_eval m = log_event ModelEval (m\<lparr>training := False\<rparr>)"

definition weights :: "'x net \<Rightarrow> real list" where
  "weights m = map data (parameters m)"

text \<open>\<^verbatim>\<open>pred = model(X)\<close>\<close>

definition model_call :: "'x collab \<Rightarrow> 'x list \<Rightarrow> 'x net \<Rightarrow> real list list \<times> 'x net" where
  "model_call c X m =
     (map (forward c (training m) (weights m)) X, log_event (ModelCall X) m)"

text \<open>
  \<^verbatim>\<open>loss = loss_fn(pred, y)\<close>: the loss tensor is its value together with the graph
  that \<^verbatim>\<open>backward\<close> will differentiate, fixed at the weights of the forward pass.
\<close>

definition loss_call ::
  "'x collab \<Rightarrow> real list list \<Rightarrow> 'x list \<Rightarrow> nat list \<Rightarrow> 'x net \<Rightarrow> (real \<times> (nat \<Rightarrow> real)) \<times> 'x net" where
  "loss_call c pred X y m =
     ((loss_fn c pred y, grad_fn c (training m) (weights m) X y), log_event LossCall m)"

text \<open>\<^verbatim>\<open>optimizer.zero_grad()\<close>\<close>

definition zero_grad :: "'x net \<Rightarrow> 'x net" where
  "zero_grad m = log_event ZeroGrad (m\<lparr>parameters := map (\<lambda>p. p\<lparr>grad := 0\<rparr>) (parameters m)\<rparr>)"

text \<open>\<^verbatim>\<open>loss.backward()\<close>: gradients accumulate into \<^verbatim>\<open>.grad\<close>.\<close>

definition backward :: "(nat \<Rightarrow> real) \<Rightarrow> 'x net \<Rightarrow> 'x net" where
  "backward g m =
     log_event Backward
       (m\<lparr>parameters := map (\<lambda>(i, p). p\<lparr>grad := grad p + g i\<rparr>) (enumerate 0 (parameters m))\<rparr>)"

text \<open>\<^verbatim>\<open>torch.optim.SGD(model.parameters(), lr=0.005)\<close>, no momentum, no weight decay.\<close>

definition lr :: real where
  "lr = 5 / 1000"

definition optimizer_step :: "'x net \<Rightarrow> 'x net" where
  "optimizer_step m =
     log_event OptimizerStep
       (m\<lparr>parameters := map (\<lambda>p. p\<lparr>data := data p - lr * grad p\<rparr>) (parameters m)\<rparr>)"

subsection \<open>train\<close>

text \<open>The body of the loop of \<^verbatim>\<open>train\<close>, for one batch; it yields \<^verbatim>\<open>loss.item()\<close>.\<close>

definition train_batch :: "'x collab \<Rightarrow> ('x \<times> nat) list \<Rightarrow> 'x net \<Rightarrow> real \<times> 'x net" where
  "train_batch c b m =
     (let X = map fst b; y = map snd b;
          (pred, m1) = model_call c X m;
          (loss, m2) = loss_call c pred X y m1;
          m3 = zero_grad m2;
          m4 = backward (snd loss) m3;
          m5 = optimizer_step m4
      in (fst loss, m5))"

fun train_loop :: "'x collab \<Rightarrow> ('x \<times> nat) list list \<Rightarrow> real \<times> 'x net \<Rightarrow> real \<times> 'x net" where
  "train_loop c [] (running_loss, m) = (running_loss, m)"
| "train_loop c (b # bs) (running_loss, m) =
     (let (loss, m') = train_batch c b m in train_loop c bs (running_loss + loss, m'))"

definition train ::
  "'x dataloader \<Rightarrow> (('x \<times> nat) list \<Rightarrow> ('x \<times> nat) list) \<Rightarrow> 'x collab \<Rightarrow> 'x net
     \<Rightarrow> error + (real \<times> 'x net)" where
  "train dataloader order c m =
     (let num_batches = len_dataloader dataloader;
          m1 = model_train m;
          (running_loss, m2) = train_loop c (iter_dataloader dataloader order) (0, m1)
      in case truediv running_loss num_batches of
           Inl e \<Rightarrow> Inl e
         | Inr avg_loss \<Rightarrow> Inr (avg_loss, m2))"

subsection \<open>test\<close>

text \<open>
  Modelled from the spec: \<^verbatim>\<open>Tensor.argmax\<close> is the library's. The index of the
  maximum of a score row, the first one among exactly tied maxima; a row with no entry
  has no maximum.
\<close>

fun argmax_from :: "nat \<Rightarrow> real \<Rightarrow> nat \<Rightarrow> real list \<Rightarrow> nat" where
  "argmax_from best v i [] = best"
| "argmax_from best v i (x # xs) =
     (if v < x then argmax_from i x (Suc i) xs else argmax_from best v (Suc i) xs)"

definition argmax :: "real list \<Rightarrow> error + nat" where
  "argmax row = (case row of [] \<Rightarrow> Inl IndexError | x # xs \<Rightarrow> Inr (argmax_from 0 x 1 xs))"

text \<open>\<^verbatim>\<open>preds.argmax(1)\<close>: one index per row.\<close>

fun argmax_rows :: "real list list \<Rightarrow> error + nat list" where
  "argmax_rows [] = Inr []"
| "argmax_rows (r # rs) =
     (case argmax r of
        Inl e \<Rightarrow> Inl e
      | Inr i \<Rightarrow> (case argmax_rows rs of Inl e \<Rightarrow> Inl e | Inr is \<Rightarrow> Inr (i # is)))"

text \<open>\<^verbatim>\<open>(preds.argmax(1) == y).type(torch.float).sum().item()\<close>\<close>

definition num_correct :: "nat list \<Rightarrow> nat list \<Rightarrow> real" where
  "num_correct idx y = real (length (filter (\<lambda>(i, l). i = l) (zip idx y)))"

fun test_loop ::
  "'x collab \<Rightarrow> ('x \<times> nat) list list \<Rightarrow> (real \<times> real) \<times> 'x net \<Rightarrow> error + ((real \<times> real) \<times> 'x net)" where
  "test_loop c [] ((running_loss, correct), m) = Inr ((running_loss, correct), m)"
| "test_loop c (b # bs) ((running_loss, correct), m) =
     (let X = map fst b; y = map snd b;
          (preds, m1) = model_call c X m;
          (loss, m2) = loss_call c preds X y m1
      in case argmax_rows preds of
           Inl e \<Rightarrow> Inl e
         | Inr idx \<Rightarrow>
             test_loop c bs ((running_loss + fst loss, correct + num_correct idx y), m2))"

definition test ::
  "'x dataloader \<Rightarrow> (('x \<times> nat) list \<Rightarrow> ('x \<times> nat) list) \<Rightarrow> 'x collab \<Rightarrow> 'x net
     \<Rightarrow> error + ((real \<times> real) \<times> 'x net)" where
  "test dataloader order c m =
     (let size_ds = length (dataset dataloader);
          num_batches = len_dataloader dataloader;
          m1 = model_eval m;
          m2 = log_event NoGradEnter m1
      in case test_loop c (iter_dataloader dataloader order) ((0, 0), m2) of
           Inl e \<Rightarrow> Inl e
         | Inr ((running_loss, correct), m3) \<Rightarrow>
             (let m4 = log_event NoGradExit m3
              in case truediv running_loss num_batches of
                   Inl e \<Rightarrow> Inl e
                 | Inr avg_loss \<Rightarrow>
                     (case truediv correct size_ds of
                        Inl e \<Rightarrow> Inl e
                      | Inr correct' \<Rightarrow> Inr ((correct' * 100, avg_loss), m4))))"

subsection \<open>The epoch loop\<close>

text \<open>
  What the loop prints: a progress line (epoch number, train loss, validation loss,
  percentage classified correctly) or the final best score. The values are kept exact;
  the rounding of the format specifiers is not modelled.
\<close>

datatype report = Progress nat real real real | BestScore real

record 'x run =
  model :: "'x net"
  best_score :: real
  train_losses :: "real list"
  val_losses :: "real list"
  stdout :: "report list"

definition epochs :: nat where
  "epochs = 100"

text \<open>Python's \<^verbatim>\<open>max(a, b)\<close> keeps \<open>a\<close> unless \<open>b\<close> is strictly greater.\<close>

definition py_max :: "real \<Rightarrow> real \<Rightarrow> real" where
  "py_max a b = (if a < b then b else a)"

text \<open>
  The body of \<^verbatim>\<open>for epoch in range(epochs)\<close>. The two copies of the loop differ
  only in when they print, which is the parameter \<open>report\<close>. Every iteration over a
  loader takes the next draw of the random generator \<open>rng\<close>.
\<close>

definition epoch_body ::
  "(nat \<Rightarrow> bool) \<Rightarrow> 'x dataloader \<Rightarrow> 'x dataloader \<Rightarrow> (nat \<Rightarrow> ('x \<times> nat) list \<Rightarrow> ('x \<times> nat) list)
     \<Rightarrow> 'x collab \<Rightarrow> nat \<Rightarrow> 'x run \<Rightarrow> error + 'x run" where
  "epoch_body report train_dataloader val_dataloader rng c epoch r =
     (case train train_dataloader (rng (2 * epoch)) c (model r) of
        Inl e \<Rightarrow> Inl e
      | Inr (train_loss, m1) \<Rightarrow>
          (case test val_dataloader (rng (2 * epoch + 1)) c m1 of
             Inl e \<Rightarrow> Inl e
           | Inr ((val_correct, val_loss), m2) \<Rightarrow>
               Inr \<lparr>model = m2,
                    best_score = py_max (best_score r) val_correct,
                    train_losses = train_losses r @ [train_loss],
                    val_losses = val_losses r @ [val_loss],
                    stdout =
                      (if report epoch
                       then stdout r @ [Progress (epoch + 1) train_loss val_loss val_correct]
                       else stdout r)\<rparr>))"

fun epoch_loop ::
  "(nat \<Rightarrow> bool) \<Rightarrow> 'x dataloader \<Rightarrow> 'x dataloader \<Rightarrow> (nat \<Rightarrow> ('x \<times> nat) list \<Rightarrow> ('x \<times> nat) list)
     \<Rightarrow> 'x collab \<Rightarrow> nat list \<Rightarrow> 'x run \<Rightarrow> error + 'x run" where
  "epoch_loop report tdl vdl rng c [] r = Inr r"
| "epoch_loop report tdl vdl rng c (epoch # rest) r =
     (case epoch_body report tdl vdl rng c epoch r of
        Inl e \<Rightarrow> Inl e
      | Inr r' \<Rightarrow> epoch_loop report tdl vdl rng c rest r')"

definition initial_run :: "'x net \<Rightarrow> 'x run" where
  "initial_run m =
     \<lparr>model = m, best_score = 0, train_losses = [], val_losses = [], stdout = []\<rparr>"

text \<open>\<^verbatim>\<open>print(f'Best score: {best_score:>0.1f}%')\<close>, after the loop.\<close>

definition print_best :: "'x run \<Rightarrow> 'x run" where
  "print_best r = r\<lparr>stdout := stdout r @ [BestScore (best_score r)]\<rparr>"

definition training_run ::
  "(nat \<Rightarrow> nat \<Rightarrow> bool) \<Rightarrow> nat \<Rightarrow> 'x dataloader \<Rightarrow> 'x dataloader
     \<Rightarrow> (nat \<Rightarrow> ('x \<times> nat) list \<Rightarrow> ('x \<times> nat) list) \<Rightarrow> 'x collab \<Rightarrow> 'x net \<Rightarrow> error + 'x run" where
  "training_run report n tdl vdl rng c m =
     (case epoch_loop (report n) tdl vdl rng c [0..<n] (initial_run m) of
        Inl e \<Rightarrow> Inl e
      | Inr r \<Rightarrow> Inr (print_best r))"

text \<open>The demonstration loop prints when \<^verbatim>\<open>epoch % 5 == 0\<close>.\<close>

definition report_demo :: "nat \<Rightarrow> nat \<Rightarrow> bool" where
  "report_demo n epoch = (epoch mod 5 = 0)"

text \<open>The exercise copy prints when \<^verbatim>\<open>epoch % 5 == 0 or epoch + 1 == epochs\<close>.\<close>

definition report_exercise :: "nat \<Rightarrow> nat \<Rightarrow> bool" where
  "report_exercise n epoch = (epoch mod 5 = 0 \<or> epoch + 1 = n)"

definition demo_run ::
  "'x dataloader \<Rightarrow> 'x dataloader \<Rightarrow> (nat \<Rightarrow> ('x \<times> nat) list \<Rightarrow> ('x \<times> nat) list)
     \<Rightarrow> 'x collab \<Rightarrow> 'x net \<Rightarrow> error + 'x run" where
  "demo_run = training_run report_demo epochs"

definition exercise_run ::
  "'x dataloader \<Rightarrow> 'x dataloader \<Rightarrow> (nat \<Rightarrow> ('x \<times> nat) list \<Rightarrow> ('x \<times> nat) list)
     \<Rightarrow> 'x collab \<Rightarrow> 'x net \<Rightarrow> error + 'x run" where
  "exercise_run = training_run report_exercise epochs"

subsection \<open>Observations on a run\<close>

text \<open>
  The functions of this part are not in the notebook: they name what the statements
  below speak about. \<open>batch_losses\<close> is the list of the values \<^verbatim>\<open>loss.item()\<close>
  that a pass of \<^verbatim>\<open>train\<close> sees, batch after batch, and \<open>after_batches\<close> is the
  network the pass leaves.
\<close>

fun batch_losses :: "'x collab \<Rightarrow> ('x \<times> nat) list list \<Rightarrow> 'x net \<Rightarrow> real list" where
  "batch_losses c [] m = []"
| "batch_losses c (b # bs) m =
     fst (train_batch c b m) # batch_losses c bs (snd (train_batch c b m))"

fun after_batches :: "'x collab \<Rightarrow> ('x \<times> nat) list list \<Rightarrow> 'x net \<Rightarrow> 'x net" where
  "after_batches c [] m = m"
| "after_batches c (b # bs) m = after_batches c bs (snd (train_batch c b m))"

text \<open>The library calls of one batch, in the order of the source text.\<close>

definition train_events :: "('x \<times> nat) list \<Rightarrow> 'x event list" where
  "train_events b = [ModelCall (map fst b), LossCall, ZeroGrad, Backward, OptimizerStep]"

definition eval_events :: "('x \<times> nat) list \<Rightarrow> 'x event list" where
  "eval_events b = [ModelCall (map fst b), LossCall]"

text \<open>
  For a pass of \<^verbatim>\<open>test\<close>: the loss of one batch under fixed weights, and whether a
  sample is classified correctly (the index \<^verbatim>\<open>argmax\<close> gives for its score row is
  its label).
\<close>

definition eval_loss :: "'x collab \<Rightarrow> bool \<Rightarrow> real list \<Rightarrow> ('x \<times> nat) list \<Rightarrow> real" where
  "eval_loss c mode w b = loss_fn c (map (forward c mode w) (map fst b)) (map snd b)"

definition is_correct :: "'x collab \<Rightarrow> bool \<Rightarrow> real list \<Rightarrow> 'x \<times> nat \<Rightarrow> bool" where
  "is_correct c mode w s = (argmax (forward c mode w (fst s)) = Inr (snd s))"

text \<open>
  For the epoch loop: the network and the run after the first \<open>k\<close> epochs, and the
  three numbers of every epoch (train loss, validation loss, percentage correct), of
  which the run itself keeps only the two losses.
\<close>

definition after_epochs ::
  "(nat \<Rightarrow> bool) \<Rightarrow> 'x dataloader \<Rightarrow> 'x dataloader \<Rightarrow> (nat \<Rightarrow> ('x \<times> nat) list \<Rightarrow> ('x \<times> nat) list)
     \<Rightarrow> 'x collab \<Rightarrow> 'x net \<Rightarrow> nat \<Rightarrow> error + 'x run" where
  "after_epochs report tdl vdl rng c m k = epoch_loop report tdl vdl rng c [0..<k] (initial_run m)"

fun epoch_metrics ::
  "'x dataloader \<Rightarrow> 'x dataloader \<Rightarrow> (nat \<Rightarrow> ('x \<times> nat) list \<Rightarrow> ('x \<times> nat) list)
     \<Rightarrow> 'x collab \<Rightarrow> nat list \<Rightarrow> 'x net \<Rightarrow> (real \<times> real \<times> real) list" where
  "epoch_metrics tdl vdl rng c [] m = []"
| "epoch_metrics tdl vdl rng c (epoch # rest) m =
     (case train tdl (rng (2 * epoch)) c m of
        Inl e \<Rightarrow> []
      | Inr (train_loss, m1) \<Rightarrow>
          (case test vdl (rng (2 * epoch + 1)) c m1 of
             Inl e \<Rightarrow> []
           | Inr ((val_correct, val_loss), m2) \<Rightarrow>
               (train_loss, val_loss, val_correct) # epoch_metrics tdl vdl rng c rest m2))"

definition progress_line :: "nat \<times> real \<times> real \<times> real \<Rightarrow> report" where
  "progress_line x = (case x of (epoch, train_loss, val_loss, val_correct) \<Rightarrow>
     Progress (epoch + 1) train_loss val_loss val_correct)"

fun is_best_score :: "report \<Rightarrow> bool" where
  "is_best_score (BestScore b) = True"
| "is_best_score (Progress n a b c) = False"

subsection \<open>Small concrete instances\<close>

text \<open>
  A network whose score row is the same for every sample, with a loss function that is
  the constant 1 and a gradient that is the constant 1; samples are numbered. And a
  network freshly built from a list of weights.
\<close>

definition const_model :: "real list \<Rightarrow> nat collab" where
  "const_model row =
     \<lparr>forward = (\<lambda>mode w x. row), loss_fn = (\<lambda>pred y. 1), grad_fn = (\<lambda>mode w X y i. 1)\<rparr>"

definition fresh_net :: "real list \<Rightarrow> nat net" where
  "fresh_net ws =
     \<lparr>parameters = map (\<lambda>w. \<lparr>data = w, grad = 0\<rparr>) ws, training = False, trace = []\<rparr>"

text \<open>Eight samples of three classes: two batches of size four.\<close>

definition train_set8 :: "(nat \<times> nat) list" where
  "train_set8 = [(0, 0), (1, 1), (2, 2), (3, 0), (4, 1), (5, 2), (6, 0), (7, 1)]"

text \<open>Ten samples with the labels 0, 0, 0, 1, 1, 1, 2, 2, 2, 2.\<close>

definition val_set10 :: "(nat \<times> nat) list" where
  "val_set10 =
     [(0, 0), (1, 0), (2, 0), (3, 1), (4, 1), (5, 1), (6, 2), (7, 2), (8, 2), (9, 2)]"

text \<open>
  A network of two classes with one weight, which every batch of training raises by
  one (the gradient is the constant \<open>-200\<close>), and which classifies as class 0 the samples
  numbered below a threshold that depends on the weight. On twenty samples of class 0 it
  goes through the accuracies 10, 40, 25, 60 and 55.
\<close>

definition stage_threshold :: "real \<Rightarrow> real" where
  "stage_threshold w =
     (if w = 1 then 2 else if w = 2 then 8 else if w = 3 then 5 else if w = 4 then 12 else 11)"

definition staged_model :: "nat collab" where
  "staged_model =
     \<lparr>forward = (\<lambda>mode w x. if real x < stage_threshold (hd w) then [1, 0] else [0, 1]),
      loss_fn = (\<lambda>pred y. 1),
      grad_fn = (\<lambda>mode w X y i. - 200)\<rparr>"

definition val_set20 :: "(nat \<times> nat) list" where
  "val_set20 = map (\<lambda>i. (i, 0)) [0..<20]"

section \<open>Facts about the embedding\<close>

subsection \<open>Division\<close>

lemma truediv_Inr: "truediv a n = Inr q \<longleftrightarrow> n \<noteq> 0 \<and> q = a / real n"
  by (auto simp: truediv_def)

subsection \<open>Batching\<close>

lemma chunks_Nil: "chunks b [] = []"
  by (simp add: chunks.simps)

lemma chunks_step:
  "0 < b \<Longrightarrow> xs \<noteq> [] \<Longrightarrow> chunks b xs = take b xs # chunks b (drop b xs)"
  by (subst chunks.simps) simp

lemma concat_chunks: "0 < b \<Longrightarrow> concat (chunks b xs) = xs"
proof (induction b xs rule: chunks.induct)
  case (1 b xs)
  show ?case
  proof (cases "xs = []")
    case True
    then show ?thesis by (simp add: chunks_Nil)
  next
    case False
    with 1 show ?thesis by (simp add: chunks_step)
  qed
qed

lemma ceil_div_step:
  "0 < b \<Longrightarrow> 0 < n \<Longrightarrow> (n + b - 1) div b = Suc ((n - b + b - 1) div b)" for b n :: nat
proof (cases "b \<le> n")
  case True
  assume b: "0 < b" and n: "0 < n"
  have l: "n + b - 1 = (n - 1) + b" using n by simp
  have r: "n - b + b - 1 = n - 1" using True by simp
  have "((n - 1) + b) div b = Suc ((n - 1) div b)" using b by simp
  then show ?thesis by (simp only: l r)
next
  case False
  assume b: "0 < b" and n: "0 < n"
  have "b * 1 \<le> n + b - 1" using n by simp
  moreover have "n + b - 1 < b * Suc 1" using False b by simp
  ultimately have l: "(n + b - 1) div b = 1" by (rule div_nat_eqI)
  have "n - b + b - 1 = b - 1" using False by simp
  moreover have "(b - 1) div b = 0" using b by simp
  ultimately show ?thesis using l by simp
qed

lemma length_chunks: "0 < b \<Longrightarrow> length (chunks b xs) = (length xs + b - 1) div b"
proof (induction b xs rule: chunks.induct)
  case (1 b xs)
  show ?case
  proof (cases "xs = []")
    case True
    then show ?thesis using 1(2) by (simp add: chunks_Nil)
  next
    case False
    with 1 have "length (chunks b xs) = Suc ((length xs - b + b - 1) div b)"
      by (simp add: chunks_step)
    also have "\<dots> = (length xs + b - 1) div b"
      using ceil_div_step [of b "length xs"] 1(2) False by simp
    finally show ?thesis .
  qed
qed


lemma len_dataloader_pos:
  "0 < batch_size dl \<Longrightarrow> dataset dl \<noteq> [] \<Longrightarrow> 0 < len_dataloader dl"
  by (cases "dataset dl") (simp_all add: len_dataloader_def div_greater_zero_iff)

lemma len_dataloader_empty: "dataset dl = [] \<Longrightarrow> len_dataloader dl = 0"
  by (cases "batch_size dl = 0") (simp_all add: len_dataloader_def)

lemma length_iter_dataloader:
  assumes "0 < batch_size dl" "shuffle dl \<Longrightarrow> length (order (dataset dl)) = length (dataset dl)"
  shows "length (iter_dataloader dl order) = len_dataloader dl"
proof (cases "shuffle dl")
  case True
  with assms show ?thesis by (simp add: iter_dataloader_def len_dataloader_def length_chunks)
next
  case False
  with assms(1) show ?thesis by (simp add: iter_dataloader_def len_dataloader_def length_chunks)
qed

lemma concat_iter_dataloader:
  "0 < batch_size dl \<Longrightarrow>
   concat (iter_dataloader dl order) = (if shuffle dl then order (dataset dl) else dataset dl)"
  by (simp add: iter_dataloader_def concat_chunks)

subsection \<open>One batch of training, one pass of training\<close>

lemma train_batch_trace: "trace (snd (train_batch c b m)) = trace m @ train_events b"
  by (simp add: train_batch_def model_call_def loss_call_def zero_grad_def backward_def
      optimizer_step_def log_event_def train_events_def Let_def)




lemma train_loop_eq:
  "train_loop c bs (s, m) = (s + sum_list (batch_losses c bs m), after_batches c bs m)"
  by (induction bs arbitrary: s m) (simp_all add: split_def Let_def add.assoc)


lemma after_batches_trace:
  "trace (after_batches c bs m) = trace m @ concat (map train_events bs)"
  by (induction bs arbitrary: m) (simp_all add: train_batch_trace)

lemma train_eq:
  "train dl order c m =
     (if len_dataloader dl = 0 then Inl ZeroDivisionError
      else Inr (sum_list (batch_losses c (iter_dataloader dl order) (model_train m))
                  / real (len_dataloader dl),
                after_batches c (iter_dataloader dl order) (model_train m)))"
  by (simp add: train_def train_loop_eq truediv_def Let_def)




lemma train_trace:
  "train dl order c m = Inr (avg, m') \<Longrightarrow>
     trace m' = trace m @ ModelTrain # concat (map train_events (iter_dataloader dl order))"
  by (auto simp: train_eq after_batches_trace model_train_def log_event_def split: if_splits)

subsection \<open>The index of the maximum\<close>

lemma argmax_from_spec:
  assumes "length pre = i" and "best < i" and "v = pre ! best"
    and "\<forall>j < i. pre ! j \<le> v" and "\<forall>j < best. pre ! j < v"
  shows "argmax_from best v i xs < length (pre @ xs) \<and>
         (\<forall>j < length (pre @ xs). (pre @ xs) ! j \<le> (pre @ xs) ! argmax_from best v i xs) \<and>
         (\<forall>j < argmax_from best v i xs. (pre @ xs) ! j < (pre @ xs) ! argmax_from best v i xs)"
  using assms
proof (induction xs arbitrary: best v i pre)
  case Nil
  then show ?case by simp
next
  case (Cons x xs)
  show ?case
  proof (cases "v < x")
    case True
    have "argmax_from i x (Suc i) xs < length ((pre @ [x]) @ xs) \<and>
         (\<forall>j < length ((pre @ [x]) @ xs). ((pre @ [x]) @ xs) ! j \<le> ((pre @ [x]) @ xs) ! argmax_from i x (Suc i) xs) \<and>
         (\<forall>j < argmax_from i x (Suc i) xs. ((pre @ [x]) @ xs) ! j < ((pre @ [x]) @ xs) ! argmax_from i x (Suc i) xs)"
    proof (rule Cons.IH)
      show "length (pre @ [x]) = Suc i" using Cons.prems(1) [symmetric] by simp
      show "i < Suc i" by simp
      show "x = (pre @ [x]) ! i" using Cons.prems(1) [symmetric] by simp
      show "\<forall>j<Suc i. (pre @ [x]) ! j \<le> x"
        using Cons.prems(1) [symmetric] Cons.prems(4) True by (auto simp: nth_append less_Suc_eq)
      show "\<forall>j<i. (pre @ [x]) ! j < x"
        using Cons.prems(1) [symmetric] Cons.prems(4) True by (auto simp: nth_append)
    qed
    with True show ?thesis by simp
  next
    case False
    have "argmax_from best v (Suc i) xs < length ((pre @ [x]) @ xs) \<and>
         (\<forall>j < length ((pre @ [x]) @ xs). ((pre @ [x]) @ xs) ! j \<le> ((pre @ [x]) @ xs) ! argmax_from best v (Suc i) xs) \<and>
         (\<forall>j < argmax_from best v (Suc i) xs. ((pre @ [x]) @ xs) ! j < ((pre @ [x]) @ xs) ! argmax_from best v (Suc i) xs)"
    proof (rule Cons.IH)
      show "length (pre @ [x]) = Suc i" using Cons.prems(1) [symmetric] by simp
      show "best < Suc i" using Cons.prems(2) by simp
      show "v = (pre @ [x]) ! best" using Cons.prems(1) [symmetric] Cons.prems(2,3) by (simp add: nth_append)
      show "\<forall>j<Suc i. (pre @ [x]) ! j \<le> v"
        using Cons.prems(1) [symmetric] Cons.prems(4) False by (auto simp: nth_append less_Suc_eq)
      show "\<forall>j<best. (pre @ [x]) ! j < v"
        using Cons.prems(1) [symmetric] Cons.prems(2,5) by (auto simp: nth_append)
    qed
    with False show ?thesis by simp
  qed
qed

lemma argmax_spec:
  assumes "argmax row = Inr k"
  shows "k < length row \<and> (\<forall>j < length row. row ! j \<le> row ! k) \<and> (\<forall>j < k. row ! j < row ! k)"
proof (cases row)
  case Nil
  with assms show ?thesis by (simp add: argmax_def)
next
  case (Cons x xs)
  with assms have k: "k = argmax_from 0 x 1 xs" by (simp add: argmax_def)
  from argmax_from_spec [of "[x]" 1 0 x xs] show ?thesis
    by (simp add: k Cons)
qed

lemma argmax_unique:
  fixes row :: "real list"
  assumes "i < length row" "\<forall>j < length row. row ! j \<le> row ! i" "\<forall>j < i. row ! j < row ! i"
    and "k < length row" "\<forall>j < length row. row ! j \<le> row ! k" "\<forall>j < k. row ! j < row ! k"
  shows "i = k"
proof (rule ccontr)
  assume "i \<noteq> k"
  then consider "i < k" | "k < i" by linarith
  then show False
  proof cases
    case 1
    with assms(6) have "row ! i < row ! k" by simp
    moreover from assms(2,4) have "row ! k \<le> row ! i" by simp
    ultimately show False by simp
  next
    case 2
    with assms(3) have "row ! k < row ! i" by simp
    moreover from assms(5,1) have "row ! i \<le> row ! k" by simp
    ultimately show False by simp
  qed
qed

lemma argmax_iff:
  "argmax row = Inr i \<longleftrightarrow>
     i < length row \<and> (\<forall>j < length row. row ! j \<le> row ! i) \<and> (\<forall>j < i. row ! j < row ! i)"
proof
  assume "argmax row = Inr i"
  then show "i < length row \<and> (\<forall>j < length row. row ! j \<le> row ! i) \<and> (\<forall>j < i. row ! j < row ! i)"
    by (rule argmax_spec)
next
  assume a: "i < length row \<and> (\<forall>j < length row. row ! j \<le> row ! i) \<and> (\<forall>j < i. row ! j < row ! i)"
  then have "row \<noteq> []" by auto
  then obtain k where k: "argmax row = Inr k" by (cases row) (simp_all add: argmax_def)
  from argmax_spec [OF k] a have "i = k" using argmax_unique [of i row k] by blast
  with k show "argmax row = Inr i" by simp
qed

lemma argmax_empty: "argmax row = Inl e \<longleftrightarrow> row = [] \<and> e = IndexError"
  by (cases row) (auto simp: argmax_def)

lemma argmax_rows_succeeds:
  "\<forall>r \<in> set rows. r \<noteq> [] \<Longrightarrow> \<exists>idx. argmax_rows rows = Inr idx"
proof (induction rows)
  case Nil
  then show ?case by simp
next
  case (Cons r rows)
  then obtain idx where "argmax_rows rows = Inr idx" by auto
  moreover from Cons.prems obtain i where "argmax r = Inr i"
    by (cases r) (simp_all add: argmax_def)
  ultimately show ?case by simp
qed

lemma argmax_rows_error: "argmax_rows rows = Inl e \<Longrightarrow> e = IndexError"
  by (induction rows) (auto simp: argmax_empty split: sum.splits)

subsection \<open>One pass of evaluation\<close>

lemma test_loop_net:
  "test_loop c bs (acc, m) = Inr (acc', m') \<Longrightarrow>
     parameters m' = parameters m \<and> training m' = training m \<and>
     trace m' = trace m @ concat (map eval_events bs)"
proof (induction bs arbitrary: acc m)
  case Nil
  then show ?case by (cases acc) simp
next
  case (Cons b bs)
  obtain rl co where acc: "acc = (rl, co)" by (cases acc)
  from Cons.prems obtain idx where
    idx: "argmax_rows (map (forward c (training m) (weights m)) (map fst b)) = Inr idx"
    by (auto simp: acc model_call_def loss_call_def Let_def split: sum.splits)
  let ?m2 = "log_event LossCall (log_event (ModelCall (map fst b)) m)"
  from Cons.prems idx have "test_loop c bs
      ((rl + loss_fn c (map (forward c (training m) (weights m)) (map fst b)) (map snd b),
        co + num_correct idx (map snd b)), ?m2) = Inr (acc', m')"
    by (simp add: acc model_call_def loss_call_def Let_def)
  from Cons.IH [OF this] show ?case
    by (simp add: log_event_def eval_events_def)
qed

lemma test_loop_cong:
  "training m = training n \<Longrightarrow> weights m = weights n \<Longrightarrow>
     map_sum id fst (test_loop c bs (acc, m)) = map_sum id fst (test_loop c bs (acc, n))"
proof (induction bs arbitrary: acc m n)
  case Nil
  then show ?case by (cases acc) simp
next
  case (Cons b bs)
  obtain rl co where acc: "acc = (rl, co)" by (cases acc)
  show ?case
  proof (cases "argmax_rows (map (forward c (training n) (weights n)) (map fst b))")
    case (Inl e)
    with Cons.prems show ?thesis by (simp add: acc model_call_def loss_call_def Let_def)
  next
    case (Inr idx)
    let ?m2 = "log_event LossCall (log_event (ModelCall (map fst b)) m)"
    let ?n2 = "log_event LossCall (log_event (ModelCall (map fst b)) n)"
    have "training ?m2 = training ?n2" "weights ?m2 = weights ?n2"
      using Cons.prems by (simp_all add: log_event_def weights_def)
    from Cons.IH [OF this] Inr Cons.prems show ?thesis
      by (simp add: acc model_call_def loss_call_def Let_def)
  qed
qed

lemma num_correct_Cons: "num_correct (i # idx) (l # y) = (if i = l then 1 else 0) + num_correct idx y"
  by (simp add: num_correct_def)

lemma num_correct_rows:
  "argmax_rows (map (forward c mode w) (map fst b)) = Inr idx \<Longrightarrow>
     num_correct idx (map snd b) = real (length (filter (is_correct c mode w) b))"
proof (induction b arbitrary: idx)
  case Nil
  then show ?case by (simp add: num_correct_def)
next
  case (Cons s b)
  from Cons.prems obtain i idx' where
    i: "argmax (forward c mode w (fst s)) = Inr i" and
    idx': "argmax_rows (map (forward c mode w) (map fst b)) = Inr idx'" and
    idx: "idx = i # idx'"
    by (auto split: sum.splits)
  from Cons.IH [OF idx'] i show ?case
    by (auto simp: idx num_correct_Cons is_correct_def)
qed

lemma test_loop_sums:
  "test_loop c bs ((rl, co), m) = Inr ((rl', co'), m') \<Longrightarrow>
     rl' = rl + sum_list (map (eval_loss c (training m) (weights m)) bs) \<and>
     co' = co + real (length (filter (is_correct c (training m) (weights m)) (concat bs)))"
proof (induction bs arbitrary: rl co m)
  case Nil
  then show ?case by simp
next
  case (Cons b bs)
  from Cons.prems obtain idx where
    idx: "argmax_rows (map (forward c (training m) (weights m)) (map fst b)) = Inr idx"
    by (auto simp: model_call_def loss_call_def Let_def split: sum.splits)
  let ?m2 = "log_event LossCall (log_event (ModelCall (map fst b)) m)"
  have m2: "training ?m2 = training m" "weights ?m2 = weights m"
    by (simp_all add: log_event_def weights_def)
  from Cons.prems idx have "test_loop c bs
      ((rl + eval_loss c (training m) (weights m) b,
        co + num_correct idx (map snd b)), ?m2) = Inr ((rl', co'), m')"
    by (simp add: model_call_def loss_call_def Let_def eval_loss_def)
  from Cons.IH [OF this] show ?case
    by (simp add: m2 num_correct_rows [OF idx])
qed

lemma test_result:
  assumes "test dl order c m = Inr ((acc, avg), m')"
  shows "parameters m' = parameters m" and "training m' = False"
    and "trace m' = trace m @ [ModelEval, NoGradEnter]
           @ concat (map eval_events (iter_dataloader dl order)) @ [NoGradExit]"
    and "avg = sum_list (map (eval_loss c False (weights m)) (iter_dataloader dl order))
           / real (len_dataloader dl)"
    and "acc = real (length (filter (is_correct c False (weights m))
                 (concat (iter_dataloader dl order)))) / real (length (dataset dl)) * 100"
    and "len_dataloader dl \<noteq> 0" and "dataset dl \<noteq> []"
proof -
  let ?m2 = "log_event NoGradEnter (model_eval m)"
  from assms obtain rl co m3 where
    loop: "test_loop c (iter_dataloader dl order) ((0, 0), ?m2) = Inr ((rl, co), m3)"
    by (auto simp: test_def Let_def split: sum.splits)
  from assms loop have
    avg: "truediv rl (len_dataloader dl) = Inr avg" and
    acc: "\<exists>q. truediv co (length (dataset dl)) = Inr q \<and> acc = q * 100" and
    m': "m' = log_event NoGradExit m3"
    by (auto simp: test_def Let_def split: sum.splits)
  have m2: "training ?m2 = False" "weights ?m2 = weights m" "parameters ?m2 = parameters m"
    "trace ?m2 = trace m @ [ModelEval, NoGradEnter]"
    by (simp_all add: log_event_def model_eval_def weights_def)
  from test_loop_net [OF loop] m2 m'
  show "parameters m' = parameters m" "training m' = False"
    "trace m' = trace m @ [ModelEval, NoGradEnter]
           @ concat (map eval_events (iter_dataloader dl order)) @ [NoGradExit]"
    by (simp_all add: log_event_def)
  from test_loop_sums [OF loop] m2 avg acc
  show "avg = sum_list (map (eval_loss c False (weights m)) (iter_dataloader dl order))
           / real (len_dataloader dl)"
    "acc = real (length (filter (is_correct c False (weights m))
                 (concat (iter_dataloader dl order)))) / real (length (dataset dl)) * 100"
    "len_dataloader dl \<noteq> 0" "dataset dl \<noteq> []"
    by (auto simp: truediv_Inr)
qed

lemma eval_events_set: "e \<in> set (concat (map eval_events bs)) \<Longrightarrow> e = LossCall \<or> (\<exists>X. e = ModelCall X)"
  by (auto simp: eval_events_def)

lemma test_again:
  assumes "test dl order c m = Inr (res, m')"
    and "shuffle dl \<Longrightarrow> order' (dataset dl) = order (dataset dl)"
  shows "\<exists>m''. test dl order' c m' = Inr (res, m'') \<and> parameters m'' = parameters m"
proof -
  obtain acc avg where res: "res = (acc, avg)" by (cases res)
  let ?bs = "iter_dataloader dl order"
  have bs: "iter_dataloader dl order' = ?bs"
    using assms(2) by (simp add: iter_dataloader_def)
  let ?m2 = "log_event NoGradEnter (model_eval m)"
  let ?n2 = "log_event NoGradEnter (model_eval m')"
  from assms(1) obtain rl co m3 where
    loop: "test_loop c ?bs ((0, 0), ?m2) = Inr ((rl, co), m3)"
    by (auto simp: test_def Let_def split: sum.splits)
  from assms(1) loop have
    rest: "(case truediv rl (len_dataloader dl) of
              Inl e \<Rightarrow> Inl e
            | Inr avg_loss \<Rightarrow>
                (case truediv co (length (dataset dl)) of
                   Inl e \<Rightarrow> Inl e
                 | Inr correct' \<Rightarrow> Inr ((correct' * 100, avg_loss), log_event NoGradExit m3)))
           = Inr (res, m')"
    by (simp add: test_def Let_def)
  have par: "parameters m' = parameters m"
    using test_result(1) [of dl order c m acc avg m'] assms(1) by (simp add: res)
  have "training ?n2 = training ?m2" "weights ?n2 = weights ?m2"
    using par by (simp_all add: log_event_def model_eval_def weights_def)
  from test_loop_cong [OF this, of c ?bs "(0, 0)"] loop
  obtain n3 where loop': "test_loop c ?bs ((0, 0), ?n2) = Inr ((rl, co), n3)"
    by (cases "test_loop c ?bs ((0, 0), ?n2)") auto
  from rest have "test dl order' c m' = Inr (res, log_event NoGradExit n3)"
    by (auto simp: test_def Let_def bs loop' split: sum.splits)
  moreover from this have "parameters (log_event NoGradExit n3) = parameters m'"
    using test_result(1) [of dl order' c m' acc avg] by (simp add: res)
  ultimately show ?thesis using par by auto
qed

lemma test_loop_succeeds:
  assumes "\<forall>x. forward c (training m) (weights m) x \<noteq> []"
  shows "\<exists>r. test_loop c bs (acc, m) = Inr r"
  using assms
proof (induction bs arbitrary: acc m)
  case Nil
  then show ?case by (cases acc) simp
next
  case (Cons b bs)
  obtain rl co where acc: "acc = (rl, co)" by (cases acc)
  from Cons.prems obtain idx where
    idx: "argmax_rows (map (forward c (training m) (weights m)) (map fst b)) = Inr idx"
    using argmax_rows_succeeds [of "map (forward c (training m) (weights m)) (map fst b)"]
    by auto
  let ?m2 = "log_event LossCall (log_event (ModelCall (map fst b)) m)"
  have "\<forall>x. forward c (training ?m2) (weights ?m2) x \<noteq> []"
    using Cons.prems by (simp add: log_event_def weights_def)
  from Cons.IH [OF this] idx show ?case
    by (simp add: acc model_call_def loss_call_def Let_def)
qed

lemma test_succeeds:
  assumes "0 < batch_size dl" and "dataset dl \<noteq> []"
    and "\<forall>x. forward c False (weights m) x \<noteq> []"
  shows "\<exists>acc avg m'. test dl order c m = Inr ((acc, avg), m')"
proof -
  let ?m2 = "log_event NoGradEnter (model_eval m)"
  have "\<forall>x. forward c (training ?m2) (weights ?m2) x \<noteq> []"
    using assms(3) by (simp add: log_event_def model_eval_def weights_def)
  from test_loop_succeeds [OF this]
  obtain rl co m3 where "test_loop c (iter_dataloader dl order) ((0, 0), ?m2) = Inr ((rl, co), m3)"
    by (metis surj_pair)
  moreover have "len_dataloader dl \<noteq> 0"
    using len_dataloader_pos [OF assms(1,2)] by simp
  ultimately show ?thesis using assms(2)
    by (simp add: test_def Let_def truediv_def)
qed

lemma test_loop_error: "test_loop c bs (acc, m) = Inl e \<Longrightarrow> e = IndexError"
proof (induction bs arbitrary: acc m)
  case Nil
  then show ?case by (cases acc) simp
next
  case (Cons b bs)
  obtain rl co where acc: "acc = (rl, co)" by (cases acc)
  from Cons show ?case
    by (auto simp: acc model_call_def loss_call_def Let_def dest: argmax_rows_error
        split: sum.splits)
qed

lemma test_no_zero_division:
  assumes "0 < batch_size dl" and "dataset dl \<noteq> []"
  shows "test dl order c m \<noteq> Inl ZeroDivisionError"
proof
  assume t: "test dl order c m = Inl ZeroDivisionError"
  have len: "len_dataloader dl \<noteq> 0" using len_dataloader_pos [OF assms] by simp
  let ?m2 = "log_event NoGradEnter (model_eval m)"
  show False
  proof (cases "test_loop c (iter_dataloader dl order) ((0, 0), ?m2)")
    case (Inl e)
    with t test_loop_error [OF Inl] show False by (simp add: test_def Let_def)
  next
    case (Inr r)
    with t len assms(2) show False
      by (auto simp: test_def Let_def truediv_def split: prod.splits)
  qed
qed

lemma iter_dataloader_empty:
  assumes "iter_dataloader dl order = []"
    and "shuffle dl \<Longrightarrow> mset (order (dataset dl)) = mset (dataset dl)"
  shows "len_dataloader dl = 0"
proof (cases "batch_size dl = 0")
  case True
  then show ?thesis by (simp add: len_dataloader_def)
next
  case False
  define xs where "xs = (if shuffle dl then order (dataset dl) else dataset dl)"
  have "chunks (batch_size dl) xs = []" using assms(1) by (simp add: iter_dataloader_def xs_def)
  with False have "xs = []" by (cases "xs = []") (simp_all add: chunks_step)
  then have "mset (dataset dl) = {#}" using assms(2) by (auto simp: xs_def split: if_splits)
  then show ?thesis by (simp add: len_dataloader_empty)
qed

lemma test_empty:
  assumes "iter_dataloader dl order = []" and "len_dataloader dl = 0"
  shows "test dl order c m = Inl ZeroDivisionError"
  using assms by (simp add: test_def Let_def truediv_def)

lemma test_example:
  "test \<lparr>dataset = val_set10, batch_size = 4, shuffle = False\<rparr> id (const_model [1, 0, 0])
     (fresh_net [1, 2]) =
   Inr ((30, 1),
     \<lparr>parameters = [\<lparr>data = 1, grad = 0\<rparr>, \<lparr>data = 2, grad = 0\<rparr>], training = False,
      trace = [ModelEval, NoGradEnter, ModelCall [0, 1, 2, 3], LossCall,
        ModelCall [4, 5, 6, 7], LossCall, ModelCall [8, 9], LossCall, NoGradExit]\<rparr>)"
  by (simp add: test_def len_dataloader_def iter_dataloader_def val_set10_def chunks_step
      chunks_Nil const_model_def fresh_net_def model_eval_def log_event_def model_call_def
      loss_call_def weights_def argmax_def num_correct_def truediv_def)

subsection \<open>The epoch loop\<close>

lemma epoch_body_Inr:
  "epoch_body report tdl vdl rng c epoch r = Inr r' \<longleftrightarrow>
     (\<exists>train_loss m1 val_correct val_loss m2.
        train tdl (rng (2 * epoch)) c (model r) = Inr (train_loss, m1) \<and>
        test vdl (rng (2 * epoch + 1)) c m1 = Inr ((val_correct, val_loss), m2) \<and>
        r' = \<lparr>model = m2,
              best_score = py_max (best_score r) val_correct,
              train_losses = train_losses r @ [train_loss],
              val_losses = val_losses r @ [val_loss],
              stdout =
                (if report epoch
                 then stdout r @ [Progress (epoch + 1) train_loss val_loss val_correct]
                 else stdout r)\<rparr>)"
  by (auto simp: epoch_body_def split: sum.splits prod.splits)

lemma epoch_loop_append:
  "epoch_loop report tdl vdl rng c (es @ fs) r =
     (case epoch_loop report tdl vdl rng c es r of
        Inl e \<Rightarrow> Inl e
      | Inr r' \<Rightarrow> epoch_loop report tdl vdl rng c fs r')"
  by (induction es arbitrary: r) (simp_all split: sum.splits)

lemma epoch_loop_metrics:
  assumes "epoch_loop report tdl vdl rng c es r = Inr r'"
  shows "length (epoch_metrics tdl vdl rng c es (model r)) = length es \<and>
         train_losses r' = train_losses r @ map fst (epoch_metrics tdl vdl rng c es (model r)) \<and>
         val_losses r' = val_losses r @ map (fst \<circ> snd) (epoch_metrics tdl vdl rng c es (model r)) \<and>
         best_score r' = foldl py_max (best_score r)
            (map (snd \<circ> snd) (epoch_metrics tdl vdl rng c es (model r))) \<and>
         stdout r' = stdout r @ map progress_line
            (filter (\<lambda>x. report (fst x)) (zip es (epoch_metrics tdl vdl rng c es (model r))))"
  using assms
proof (induction es arbitrary: r)
  case Nil
  then show ?case by simp
next
  case (Cons epoch es)
  from Cons.prems obtain r1 where
    b: "epoch_body report tdl vdl rng c epoch r = Inr r1" and
    l: "epoch_loop report tdl vdl rng c es r1 = Inr r'"
    by (auto split: sum.splits)
  from b obtain train_loss m1 val_correct val_loss m2 where
    tr: "train tdl (rng (2 * epoch)) c (model r) = Inr (train_loss, m1)" and
    te: "test vdl (rng (2 * epoch + 1)) c m1 = Inr ((val_correct, val_loss), m2)" and
    r1: "r1 = \<lparr>model = m2,
              best_score = py_max (best_score r) val_correct,
              train_losses = train_losses r @ [train_loss],
              val_losses = val_losses r @ [val_loss],
              stdout =
                (if report epoch
                 then stdout r @ [Progress (epoch + 1) train_loss val_loss val_correct]
                 else stdout r)\<rparr>"
    unfolding epoch_body_Inr by blast
  have m: "epoch_metrics tdl vdl rng c (epoch # es) (model r) =
      (train_loss, val_loss, val_correct) # epoch_metrics tdl vdl rng c es (model r1)"
    using tr te by (simp add: r1)
  from Cons.IH [OF l] show ?case
    unfolding m by (simp add: r1 progress_line_def)
qed

lemma train_succeeds:
  "0 < batch_size dl \<Longrightarrow> dataset dl \<noteq> [] \<Longrightarrow> \<exists>avg m'. train dl order c m = Inr (avg, m')"
  using len_dataloader_pos [of dl] by (simp add: train_eq)

lemma epoch_body_succeeds:
  assumes "0 < batch_size tdl" "dataset tdl \<noteq> []" "0 < batch_size vdl" "dataset vdl \<noteq> []"
    and "\<forall>mode w x. forward c mode w x \<noteq> []"
  shows "\<exists>r'. epoch_body report tdl vdl rng c epoch r = Inr r'"
proof -
  from train_succeeds [OF assms(1,2)] obtain train_loss m1 where
    tr: "train tdl (rng (2 * epoch)) c (model r) = Inr (train_loss, m1)" by blast
  from test_succeeds [OF assms(3,4), of c m1] assms(5) obtain val_correct val_loss m2 where
    te: "test vdl (rng (2 * epoch + 1)) c m1 = Inr ((val_correct, val_loss), m2)" by blast
  show ?thesis unfolding epoch_body_Inr using tr te by blast
qed

lemma epoch_loop_succeeds:
  assumes "0 < batch_size tdl" "dataset tdl \<noteq> []" "0 < batch_size vdl" "dataset vdl \<noteq> []"
    and "\<forall>mode w x. forward c mode w x \<noteq> []"
  shows "\<exists>r'. epoch_loop report tdl vdl rng c es r = Inr r'"
proof (induction es arbitrary: r)
  case Nil
  show ?case by simp
next
  case (Cons epoch es)
  from epoch_body_succeeds [OF assms] obtain r1 where
    "epoch_body report tdl vdl rng c epoch r = Inr r1" by blast
  with Cons.IH [of r1] show ?case by simp
qed

lemma foldl_py_max_ge: "a \<le> foldl py_max a xs"
proof (induction xs arbitrary: a)
  case Nil
  show ?case by simp
next
  case (Cons x xs)
  have "a \<le> py_max a x" by (simp add: py_max_def)
  also have "\<dots> \<le> foldl py_max (py_max a x) xs" by (rule Cons.IH)
  finally show ?case by simp
qed

lemma py_max_max: "py_max a b = max a b"
  by (simp add: py_max_def max_def)

lemma foldl_py_max_Max: "foldl py_max a xs = Max (insert a (set xs))"
proof (induction xs arbitrary: a)
  case Nil
  show ?case by simp
next
  case (Cons x xs)
  have "foldl py_max a (x # xs) = Max (insert (max a x) (set xs))"
    by (simp add: Cons.IH py_max_max)
  also have "\<dots> = Max (insert a (insert x (set xs)))"
    by (cases "set xs = {}") (simp_all add: max.assoc)
  finally show ?case by simp
qed

lemma epoch_metrics_append:
  "epoch_loop report tdl vdl rng c es r = Inr r' \<Longrightarrow>
     epoch_metrics tdl vdl rng c (es @ fs) (model r) =
       epoch_metrics tdl vdl rng c es (model r) @ epoch_metrics tdl vdl rng c fs (model r')"
proof (induction es arbitrary: r)
  case Nil
  then show ?case by simp
next
  case (Cons epoch es)
  from Cons.prems obtain r1 where
    b: "epoch_body report tdl vdl rng c epoch r = Inr r1" and
    l: "epoch_loop report tdl vdl rng c es r1 = Inr r'"
    by (auto split: sum.splits)
  from b obtain train_loss m1 val_correct val_loss where
    tr: "train tdl (rng (2 * epoch)) c (model r) = Inr (train_loss, m1)" and
    te: "test vdl (rng (2 * epoch + 1)) c m1 = Inr ((val_correct, val_loss), model r1)"
    unfolding epoch_body_Inr by auto
  from Cons.IH [OF l] tr te show ?case by simp
qed

lemma after_epochs_Suc:
  "after_epochs report tdl vdl rng c m (Suc k) =
     (case after_epochs report tdl vdl rng c m k of
        Inl e \<Rightarrow> Inl e
      | Inr rk \<Rightarrow> epoch_body report tdl vdl rng c k rk)"
  by (simp add: after_epochs_def epoch_loop_append split: sum.splits)

lemma run_prefix:
  assumes "after_epochs report tdl vdl rng c m n = Inr r" and "k \<le> n"
  shows "\<exists>rk. after_epochs report tdl vdl rng c m k = Inr rk \<and>
           epoch_loop report tdl vdl rng c [k..<n] rk = Inr r \<and>
           epoch_metrics tdl vdl rng c [0..<k] m = take k (epoch_metrics tdl vdl rng c [0..<n] m) \<and>
           train_losses rk = take k (train_losses r) \<and>
           val_losses rk = take k (val_losses r) \<and>
           best_score rk = foldl py_max 0
             (take k (map (snd \<circ> snd) (epoch_metrics tdl vdl rng c [0..<n] m)))"
proof -
  have split: "[0..<n] = [0..<k] @ [k..<n]"
    using assms(2) by (metis le_add_diff_inverse upt_add_eq_append zero_le)
  from assms(1) obtain rk where
    rk: "epoch_loop report tdl vdl rng c [0..<k] (initial_run m) = Inr rk" and
    rest: "epoch_loop report tdl vdl rng c [k..<n] rk = Inr r"
    unfolding after_epochs_def split epoch_loop_append by (auto split: sum.splits)
  note mk = epoch_loop_metrics [OF rk]
  note mr = epoch_loop_metrics [OF rest]
  have len: "length (epoch_metrics tdl vdl rng c [0..<k] m) = k"
    using mk by (simp add: initial_run_def)
  have app: "epoch_metrics tdl vdl rng c [0..<n] m =
      epoch_metrics tdl vdl rng c [0..<k] m @ epoch_metrics tdl vdl rng c [k..<n] (model rk)"
    unfolding split using epoch_metrics_append [OF rk, of "[k..<n]"] by (simp add: initial_run_def)
  have tk: "epoch_metrics tdl vdl rng c [0..<k] m = take k (epoch_metrics tdl vdl rng c [0..<n] m)"
    unfolding app using len by simp
  have tl: "train_losses rk = take k (train_losses r)"
    using mk mr len by (simp add: initial_run_def)
  have vl: "val_losses rk = take k (val_losses r)"
    using mk mr len by (simp add: initial_run_def)
  have bs: "best_score rk = foldl py_max 0
             (take k (map (snd \<circ> snd) (epoch_metrics tdl vdl rng c [0..<n] m)))"
    using mk by (simp add: initial_run_def tk take_map)
  from rk rest tk tl vl bs show ?thesis unfolding after_epochs_def by blast
qed

lemma training_run_Inr:
  "training_run report n tdl vdl rng c m = Inr r \<longleftrightarrow>
     (\<exists>r0. after_epochs (report n) tdl vdl rng c m n = Inr r0 \<and> r = print_best r0)"
  by (auto simp: training_run_def after_epochs_def split: sum.splits)

lemma upt5: "[0..<5] = [0, 1, 2, 3, 4]"
  by (simp add: upt_rec)

lemma val_set20_eq: "val_set20 = [(0,0),(1,0),(2,0),(3,0),(4,0),(5,0),(6,0),(7,0),(8,0),(9,0),
  (10,0),(11,0),(12,0),(13,0),(14,0),(15,0),(16,0),(17,0),(18,0),(19,0)]"
  unfolding val_set20_def by (simp add: upt_rec)

lemma staged_metrics:
  "epoch_metrics \<lparr>dataset = [(0, 0)], batch_size = 1, shuffle = True\<rparr>
     \<lparr>dataset = val_set20, batch_size = 20, shuffle = False\<rparr> (\<lambda>k. id) staged_model
     [0..<5] (fresh_net [0]) = [(1, 1, 10), (1, 1, 40), (1, 1, 25), (1, 1, 60), (1, 1, 55)]"
  unfolding upt5 val_set20_eq
  by (simp add: train_def train_batch_def test_def len_dataloader_def iter_dataloader_def chunks_step
      chunks_Nil staged_model_def stage_threshold_def fresh_net_def model_eval_def model_train_def
      log_event_def model_call_def loss_call_def zero_grad_def backward_def optimizer_step_def lr_def
      weights_def argmax_def num_correct_def truediv_def Let_def)

lemma training_run_succeeds:
  assumes "0 < batch_size tdl" "dataset tdl \<noteq> []" "0 < batch_size vdl" "dataset vdl \<noteq> []"
    and "\<forall>mode w x. forward c mode w x \<noteq> []"
  shows "\<exists>r. training_run report n tdl vdl rng c m = Inr r"
  using epoch_loop_succeeds [OF assms, of "report n" rng "[0..<n]" "initial_run m"]
  by (auto simp: training_run_def)

lemma zip_upt_nth: "length M = n \<Longrightarrow> zip [0..<n] M = map (\<lambda>e. (e, M ! e)) [0..<n]"
  by (rule nth_equalityI) simp_all

lemma training_run_stdout:
  assumes "training_run report n tdl vdl rng c m = Inr r"
  shows "stdout r =
           map (\<lambda>e. progress_line (e, epoch_metrics tdl vdl rng c [0..<n] m ! e))
             (filter (report n) [0..<n]) @ [BestScore (best_score r)]"
    and "length (epoch_metrics tdl vdl rng c [0..<n] m) = n"
    and "train_losses r = map fst (epoch_metrics tdl vdl rng c [0..<n] m)"
    and "val_losses r = map (fst \<circ> snd) (epoch_metrics tdl vdl rng c [0..<n] m)"
proof -
  define M where "M = epoch_metrics tdl vdl rng c [0..<n] m"
  from assms obtain rn where
    rn: "epoch_loop (report n) tdl vdl rng c [0..<n] (initial_run m) = Inr rn"
    and r: "r = print_best rn"
    unfolding training_run_Inr after_epochs_def by blast
  note mm = epoch_loop_metrics [OF rn, unfolded initial_run_def, simplified, folded M_def]
  from mm have len: "length M = n" by simp
  have "filter (\<lambda>x. report n (fst x)) (zip [0..<n] M) =
      map (\<lambda>e. (e, M ! e)) (filter (report n) [0..<n])"
    unfolding zip_upt_nth [OF len] by (simp add: filter_map comp_def)
  with mm have "stdout rn = map (\<lambda>e. progress_line (e, M ! e)) (filter (report n) [0..<n])"
    by (simp add: comp_def)
  then show "stdout r =
           map (\<lambda>e. progress_line (e, epoch_metrics tdl vdl rng c [0..<n] m ! e))
             (filter (report n) [0..<n]) @ [BestScore (best_score r)]"
    by (simp add: r print_best_def M_def)
  from len show "length (epoch_metrics tdl vdl rng c [0..<n] m) = n" by (simp add: M_def)
  from mm show "train_losses r = map fst (epoch_metrics tdl vdl rng c [0..<n] m)"
    by (simp add: r print_best_def M_def)
  from mm show "val_losses r = map (fst \<circ> snd) (epoch_metrics tdl vdl rng c [0..<n] m)"
    by (simp add: r print_best_def M_def)
qed

lemma is_best_score_progress: "filter is_best_score (map (\<lambda>e. progress_line (f e)) es) = []"
  by (induction es) (simp_all add: progress_line_def split: prod.splits)

lemma count_fifth: "length (filter (\<lambda>e. e mod 5 = 0) [0..<100]) = (20::nat)"
  by code_simp

lemma count_fifth_last: "length (filter (\<lambda>e. e mod 5 = 0 \<or> e = 99) [0..<100]) = (21::nat)"
  by code_simp

lemma mset_concat_iter_dataloader:
  assumes "0 < batch_size dl" and "shuffle dl \<Longrightarrow> mset (order (dataset dl)) = mset (dataset dl)"
  shows "mset (concat (iter_dataloader dl order)) = mset (dataset dl)"
  using assms by (simp add: concat_iter_dataloader)

lemma epoch_trace:
  assumes "after_epochs report tdl vdl rng c m k = Inr rk"
    and "after_epochs report tdl vdl rng c m (Suc k) = Inr rk'"
  shows "trace (model rk') =
           trace (model rk)
             @ ModelTrain # concat (map train_events (iter_dataloader tdl (rng (2 * k))))
             @ [ModelEval, NoGradEnter]
             @ concat (map eval_events (iter_dataloader vdl (rng (2 * k + 1))))
             @ [NoGradExit]"
proof -
  from assms have "epoch_body report tdl vdl rng c k rk = Inr rk'"
    by (simp add: after_epochs_Suc)
  then obtain train_loss m1 val_correct val_loss where
    tr: "train tdl (rng (2 * k)) c (model rk) = Inr (train_loss, m1)" and
    te: "test vdl (rng (2 * k + 1)) c m1 = Inr ((val_correct, val_loss), model rk')"
    unfolding epoch_body_Inr by auto
  from train_trace [OF tr] test_result(3) [OF te] show ?thesis by simp
qed

section \<open>The claims\<close>

text \<open>
  C1. In a run of the epoch loop that completes, \<^verbatim>\<open>best_score\<close> starts at 0, every
  epoch replaces it by the maximum of its value and the epoch's validation accuracy, so
  it never decreases from one epoch to a later one, and at the end it is the maximum of 0
  and all the validation accuracies of the run. For the accuracies 10, 40, 25, 60, 55
  that is 60.
\<close>

theorem best_score_monotone_running_max:
  assumes "training_run report n tdl vdl rng c m = Inr r"
  shows "length (epoch_metrics tdl vdl rng c [0..<n] m) = n \<and>
         best_score r = foldl py_max 0 (map (snd \<circ> snd) (epoch_metrics tdl vdl rng c [0..<n] m)) \<and>
         best_score r = Max (insert 0 (set (map (snd \<circ> snd) (epoch_metrics tdl vdl rng c [0..<n] m)))) \<and>
         (\<exists>r0. after_epochs (report n) tdl vdl rng c m 0 = Inr r0 \<and> best_score r0 = 0) \<and>
         (\<forall>k < n. \<exists>rk rk'.
            after_epochs (report n) tdl vdl rng c m k = Inr rk \<and>
            after_epochs (report n) tdl vdl rng c m (Suc k) = Inr rk' \<and>
            best_score rk' =
              max (best_score rk) (snd (snd (epoch_metrics tdl vdl rng c [0..<n] m ! k))) \<and>
            best_score rk \<le> best_score rk') \<and>
         (\<forall>i j. i \<le> j \<and> j \<le> n \<longrightarrow>
            (\<exists>ri rj.
               after_epochs (report n) tdl vdl rng c m i = Inr ri \<and>
               after_epochs (report n) tdl vdl rng c m j = Inr rj \<and>
               best_score ri \<le> best_score rj)) \<and>
         (map (snd \<circ> snd) (epoch_metrics tdl vdl rng c [0..<n] m) = [10, 40, 25, 60, 55] \<longrightarrow>
            best_score r = 60)"
proof -
  define M where "M = epoch_metrics tdl vdl rng c [0..<n] m"
  define accs where "accs = map (snd \<circ> snd) M"
  from assms obtain rn where
    rn: "after_epochs (report n) tdl vdl rng c m n = Inr rn" and r: "r = print_best rn"
    unfolding training_run_Inr by blast
  have best_r: "best_score r = best_score rn" by (simp add: r print_best_def)
  note pre = run_prefix [OF rn, folded M_def, folded accs_def]
  from pre [of n] have len: "length M = n" and best: "best_score r = foldl py_max 0 accs"
    using epoch_loop_metrics [OF rn [unfolded after_epochs_def]] rn
    by (auto simp: M_def accs_def initial_run_def best_r)
  have c3: "best_score r = Max (insert 0 (set accs))"
    unfolding best by (rule foldl_py_max_Max)
  have c4: "\<exists>r0. after_epochs (report n) tdl vdl rng c m 0 = Inr r0 \<and> best_score r0 = 0"
    by (simp add: after_epochs_def initial_run_def)
  have mono: "\<exists>ri rj.
               after_epochs (report n) tdl vdl rng c m i = Inr ri \<and>
               after_epochs (report n) tdl vdl rng c m j = Inr rj \<and>
               best_score ri \<le> best_score rj" if "i \<le> j" "j \<le> n" for i j
  proof -
    from pre [OF that(2)] obtain rj where
      rj: "after_epochs (report n) tdl vdl rng c m j = Inr rj" by blast
    from run_prefix [OF rj that(1)] obtain ri where
      ri: "after_epochs (report n) tdl vdl rng c m i = Inr ri" and
      rest: "epoch_loop (report n) tdl vdl rng c [i..<j] ri = Inr rj" by blast
    from epoch_loop_metrics [OF rest] have "best_score ri \<le> best_score rj"
      by (simp add: foldl_py_max_ge)
    with ri rj show ?thesis by blast
  qed
  have step: "\<exists>rk rk'.
            after_epochs (report n) tdl vdl rng c m k = Inr rk \<and>
            after_epochs (report n) tdl vdl rng c m (Suc k) = Inr rk' \<and>
            best_score rk' = max (best_score rk) (snd (snd (M ! k))) \<and>
            best_score rk \<le> best_score rk'" if "k < n" for k
  proof -
    from that have "Suc k \<le> n" by simp
    from pre [OF this] obtain rk' where
      rk': "after_epochs (report n) tdl vdl rng c m (Suc k) = Inr rk'" and
      bk': "best_score rk' = foldl py_max 0 (take (Suc k) accs)" by blast
    from that have "k \<le> n" by simp
    from pre [OF this] obtain rk where
      rk: "after_epochs (report n) tdl vdl rng c m k = Inr rk" and
      bk: "best_score rk = foldl py_max 0 (take k accs)" by blast
    have "take (Suc k) accs = take k accs @ [accs ! k]"
      using that len by (simp add: accs_def take_Suc_conv_app_nth)
    then have "best_score rk' = max (best_score rk) (accs ! k)"
      using bk bk' by (simp add: py_max_max)
    moreover have "accs ! k = snd (snd (M ! k))"
      using that len by (simp add: accs_def)
    ultimately show ?thesis using rk rk' by auto
  qed
  have ex: "accs = [10, 40, 25, 60, 55] \<longrightarrow> best_score r = 60"
    unfolding best by (simp add: py_max_def)
  from len best c3 c4 step mono ex show ?thesis
    unfolding M_def accs_def by blast
qed

theorem best_score_monotone_running_max_witness:
  "\<exists>r. training_run report_demo 5 \<lparr>dataset = [(0, 0)], batch_size = 1, shuffle = True\<rparr>
          \<lparr>dataset = val_set20, batch_size = 20, shuffle = False\<rparr> (\<lambda>k. id) staged_model
          (fresh_net [0]) = Inr r \<and>
        map (snd \<circ> snd)
          (epoch_metrics \<lparr>dataset = [(0, 0)], batch_size = 1, shuffle = True\<rparr>
            \<lparr>dataset = val_set20, batch_size = 20, shuffle = False\<rparr> (\<lambda>k. id) staged_model
            [0..<5] (fresh_net [0])) = [10, 40, 25, 60, 55] \<and>
        best_score r = 60"
proof -
  have "\<exists>r. training_run report_demo 5 \<lparr>dataset = [(0, 0)], batch_size = 1, shuffle = True\<rparr>
          \<lparr>dataset = val_set20, batch_size = 20, shuffle = False\<rparr> (\<lambda>k. id) staged_model
          (fresh_net [0]) = Inr r"
    by (rule training_run_succeeds) (simp_all add: val_set20_eq staged_model_def)
  then obtain r where r: "training_run report_demo 5
      \<lparr>dataset = [(0, 0)], batch_size = 1, shuffle = True\<rparr>
      \<lparr>dataset = val_set20, batch_size = 20, shuffle = False\<rparr> (\<lambda>k. id) staged_model
      (fresh_net [0]) = Inr r" ..
  have accs: "map (snd \<circ> snd)
          (epoch_metrics \<lparr>dataset = [(0, 0)], batch_size = 1, shuffle = True\<rparr>
            \<lparr>dataset = val_set20, batch_size = 20, shuffle = False\<rparr> (\<lambda>k. id) staged_model
            [0..<5] (fresh_net [0])) = [10, 40, 25, 60, 55]"
    unfolding staged_metrics by simp
  note last = best_score_monotone_running_max [OF r, THEN conjunct2, THEN conjunct2,
      THEN conjunct2, THEN conjunct2, THEN conjunct2, THEN conjunct2]
  from last accs have best: "best_score r = 60" by (rule mp)
  show ?thesis by (rule exI [of _ r]) (intro conjI r accs best)
qed



text \<open>
  C3. When \<^verbatim>\<open>test\<close> returns, the parameters of the network are what they were, and
  \<^verbatim>\<open>test\<close> run again on the network it left, over the same batches, returns the
  same accuracy and the same loss and again leaves the parameters alone. Between
  entering and leaving the no-gradient scope the calls are the model and the loss
  function for each batch, and nothing else: no \<^verbatim>\<open>zero_grad\<close>, no
  \<^verbatim>\<open>backward\<close>, no optimizer step.
\<close>

theorem test_deterministic_no_mutation:
  assumes "test dl order c m = Inr (res, m')"
  shows "parameters m' = parameters m \<and>
         (\<forall>order'. (shuffle dl \<longrightarrow> order' (dataset dl) = order (dataset dl)) \<longrightarrow>
            (\<exists>m''. test dl order' c m' = Inr (res, m'') \<and> parameters m'' = parameters m)) \<and>
         trace m' = trace m @ [ModelEval, NoGradEnter]
           @ concat (map (\<lambda>b. [ModelCall (map fst b), LossCall]) (iter_dataloader dl order))
           @ [NoGradExit] \<and>
         (\<forall>e \<in> set (drop (length (trace m)) (trace m')).
            e \<noteq> ZeroGrad \<and> e \<noteq> Backward \<and> e \<noteq> OptimizerStep)"
proof -
  obtain acc avg where res: "res = (acc, avg)" by (cases res)
  note r = test_result [OF assms [unfolded res]]
  have tr: "trace m' = trace m @ [ModelEval, NoGradEnter]
           @ concat (map eval_events (iter_dataloader dl order)) @ [NoGradExit]"
    by (rule r(3))
  have "\<forall>e \<in> set (drop (length (trace m)) (trace m')).
            e \<noteq> ZeroGrad \<and> e \<noteq> Backward \<and> e \<noteq> OptimizerStep"
    unfolding tr using eval_events_set by fastforce
  moreover have "trace m' = trace m @ [ModelEval, NoGradEnter]
           @ concat (map (\<lambda>b. [ModelCall (map fst b), LossCall]) (iter_dataloader dl order))
           @ [NoGradExit]"
    using tr by (simp add: eval_events_def [abs_def])
  ultimately show ?thesis
    using r(1) test_again [OF assms] by blast
qed

theorem test_deterministic_no_mutation_witness:
  "\<exists>res m' m''.
     test \<lparr>dataset = val_set10, batch_size = 4, shuffle = False\<rparr> id
       (const_model [1, 0, 0]) (fresh_net [1, 2]) = Inr (res, m') \<and>
     test \<lparr>dataset = val_set10, batch_size = 4, shuffle = False\<rparr> rev
       (const_model [1, 0, 0]) m' = Inr (res, m'') \<and>
     parameters m' = parameters (fresh_net [1, 2]) \<and>
     parameters m'' = parameters (fresh_net [1, 2])"
  using test_deterministic_no_mutation [OF test_example] test_example
  by (metis dataloader.select_convs(3))



text \<open>
  C5. With non-empty training and validation sets, positive batch sizes, a network that
  has at least one class, and a sampler whose draws are permutations, the loop over
  \<open>n\<close> epochs completes (the notebook's two loops are the case \<open>n = epochs = 100\<close>). The
  run then holds \<open>n\<close> train losses and \<open>n\<close> validation losses, those of the epochs in
  order; the run after the first \<open>k\<close> epochs holds exactly the first \<open>k\<close> of them, so an
  entry once appended stays as it is. Every epoch is one pass of \<^verbatim>\<open>train\<close> over the
  batches the training loader yields, then one pass of \<^verbatim>\<open>test\<close> over the batches the
  validation loader yields; the batches of a pass together hold every sample of the set
  exactly once, for a loader that does not shuffle in the order of the set.
\<close>

theorem epoch_loop_runs_every_epoch:
  assumes "0 < batch_size tdl" and "dataset tdl \<noteq> []"
    and "0 < batch_size vdl" and "dataset vdl \<noteq> []"
    and "\<forall>mode w x. forward c mode w x \<noteq> []"
    and "\<forall>k xs. mset (rng k xs) = mset xs"
  shows "epochs = 100 \<and>
         demo_run = training_run report_demo epochs \<and>
         exercise_run = training_run report_exercise epochs \<and>
         (\<exists>r. training_run report n tdl vdl rng c m = Inr r \<and>
            length (train_losses r) = n \<and> length (val_losses r) = n \<and>
            train_losses r = map fst (epoch_metrics tdl vdl rng c [0..<n] m) \<and>
            val_losses r = map (fst \<circ> snd) (epoch_metrics tdl vdl rng c [0..<n] m) \<and>
            (\<forall>k \<le> n. \<exists>rk.
               after_epochs (report n) tdl vdl rng c m k = Inr rk \<and>
               train_losses rk = take k (train_losses r) \<and>
               val_losses rk = take k (val_losses r)) \<and>
            (\<forall>k < n. \<exists>rk rk'.
               after_epochs (report n) tdl vdl rng c m k = Inr rk \<and>
               after_epochs (report n) tdl vdl rng c m (Suc k) = Inr rk' \<and>
               trace (model rk') =
                 trace (model rk)
                   @ ModelTrain # concat (map train_events (iter_dataloader tdl (rng (2 * k))))
                   @ [ModelEval, NoGradEnter]
                   @ concat (map eval_events (iter_dataloader vdl (rng (2 * k + 1))))
                   @ [NoGradExit] \<and>
               mset (concat (iter_dataloader tdl (rng (2 * k)))) = mset (dataset tdl) \<and>
               mset (concat (iter_dataloader vdl (rng (2 * k + 1)))) = mset (dataset vdl) \<and>
               (\<not> shuffle vdl \<longrightarrow>
                  concat (iter_dataloader vdl (rng (2 * k + 1))) = dataset vdl)))"
proof -
  from training_run_succeeds [OF assms(1-5)] obtain r where
    r: "training_run report n tdl vdl rng c m = Inr r" by blast
  then obtain rn where
    rn: "after_epochs (report n) tdl vdl rng c m n = Inr rn" and rp: "r = print_best rn"
    unfolding training_run_Inr by blast
  note s = training_run_stdout [OF r]
  have len: "length (train_losses r) = n" "length (val_losses r) = n"
    using s(2) by (simp_all add: s(3) s(4))
  have losses: "train_losses r = train_losses rn" "val_losses r = val_losses rn"
    by (simp_all add: rp print_best_def)
  have pre: "\<exists>rk. after_epochs (report n) tdl vdl rng c m k = Inr rk \<and>
               train_losses rk = take k (train_losses r) \<and>
               val_losses rk = take k (val_losses r)" if "k \<le> n" for k
    using run_prefix [OF rn that] unfolding losses by blast
  have step: "\<exists>rk rk'.
               after_epochs (report n) tdl vdl rng c m k = Inr rk \<and>
               after_epochs (report n) tdl vdl rng c m (Suc k) = Inr rk' \<and>
               trace (model rk') =
                 trace (model rk)
                   @ ModelTrain # concat (map train_events (iter_dataloader tdl (rng (2 * k))))
                   @ [ModelEval, NoGradEnter]
                   @ concat (map eval_events (iter_dataloader vdl (rng (2 * k + 1))))
                   @ [NoGradExit] \<and>
               mset (concat (iter_dataloader tdl (rng (2 * k)))) = mset (dataset tdl) \<and>
               mset (concat (iter_dataloader vdl (rng (2 * k + 1)))) = mset (dataset vdl) \<and>
               (\<not> shuffle vdl \<longrightarrow>
                  concat (iter_dataloader vdl (rng (2 * k + 1))) = dataset vdl)" if "k < n" for k
  proof -
    from that have "k \<le> n" "Suc k \<le> n" by simp_all
    from run_prefix [OF rn this(1)] run_prefix [OF rn this(2)] obtain rk rk' where
      rk: "after_epochs (report n) tdl vdl rng c m k = Inr rk" and
      rk': "after_epochs (report n) tdl vdl rng c m (Suc k) = Inr rk'" by blast
    have "mset (concat (iter_dataloader tdl (rng (2 * k)))) = mset (dataset tdl)"
      using assms(1,6) by (simp add: mset_concat_iter_dataloader)
    moreover have "mset (concat (iter_dataloader vdl (rng (2 * k + 1)))) = mset (dataset vdl)"
      using assms(3,6) by (simp add: mset_concat_iter_dataloader)
    moreover have "\<not> shuffle vdl \<longrightarrow> concat (iter_dataloader vdl (rng (2 * k + 1))) = dataset vdl"
      using assms(3) by (simp add: concat_iter_dataloader)
    ultimately show ?thesis using rk rk' epoch_trace [OF rk rk'] by blast
  qed
  have "epochs = 100" by (simp add: epochs_def)
  moreover have "demo_run = training_run report_demo epochs"
    by (simp add: demo_run_def fun_eq_iff)
  moreover have "exercise_run = training_run report_exercise epochs"
    by (simp add: exercise_run_def fun_eq_iff)
  ultimately show ?thesis using r len s(3) s(4) pre step by blast
qed

theorem epoch_loop_runs_every_epoch_witness:
  "\<exists>r. demo_run \<lparr>dataset = train_set8, batch_size = 4, shuffle = True\<rparr>
         \<lparr>dataset = val_set10, batch_size = 4, shuffle = False\<rparr> (\<lambda>k. rev)
         (const_model [1, 0, 0]) (fresh_net [1, 2]) = Inr r \<and>
       length (train_losses r) = 100 \<and> length (val_losses r) = 100"
proof -
  note th = epoch_loop_runs_every_epoch [of "\<lparr>dataset = train_set8, batch_size = 4, shuffle = True\<rparr>"
      "\<lparr>dataset = val_set10, batch_size = 4, shuffle = False\<rparr>" "const_model [1, 0, 0]"
      "\<lambda>k. rev" report_demo epochs "fresh_net [1, 2]"]
  have "\<exists>r. training_run report_demo epochs
         \<lparr>dataset = train_set8, batch_size = 4, shuffle = True\<rparr>
         \<lparr>dataset = val_set10, batch_size = 4, shuffle = False\<rparr> (\<lambda>k. rev)
         (const_model [1, 0, 0]) (fresh_net [1, 2]) = Inr r \<and>
       length (train_losses r) = epochs \<and> length (val_losses r) = epochs"
    using th by (simp add: train_set8_def val_set10_def const_model_def) blast
  then show ?thesis by (simp add: demo_run_def epochs_def)
qed

text \<open>
  C6. The accuracy \<^verbatim>\<open>test\<close> returns is 100 times the number of correctly classified
  samples over the size of the validation set, and lies between 0 and 100. (A loader
  that shuffles must yield every sample once.)
\<close>

theorem test_accuracy_in_range:
  assumes "test dl order c m = Inr ((acc, avg), m')"
    and "shuffle dl \<Longrightarrow> mset (order (dataset dl)) = mset (dataset dl)"
  shows "0 \<le> acc \<and> acc \<le> 100 \<and>
         acc = 100 * real (length (filter (is_correct c False (weights m))
                 (if shuffle dl then order (dataset dl) else dataset dl)))
               / real (length (dataset dl))"
proof -
  note r = test_result [OF assms(1)]
  have b: "0 < batch_size dl"
    using r(6) by (cases "batch_size dl = 0") (simp_all add: len_dataloader_def)
  define xs where "xs = (if shuffle dl then order (dataset dl) else dataset dl)"
  define k where "k = length (filter (is_correct c False (weights m)) xs)"
  define n where "n = length (dataset dl)"
  have len: "length xs = n"
    unfolding xs_def n_def using assms(2) by (metis size_mset)
  have acc: "acc = real k / real n * 100"
    using r(5) b by (simp add: concat_iter_dataloader k_def xs_def n_def)
  have "k \<le> length xs" unfolding k_def by (rule length_filter_le)
  then have k: "real k \<le> real n" using len by simp
  have n: "0 < real n" using r(7) by (simp add: n_def)
  have q: "real k / real n \<le> 1"
    using k n by (simp add: divide_le_eq)
  have "real k / real n * 100 \<le> 1 * 100"
    using q by (rule mult_right_mono) simp
  then have "acc \<le> 100" unfolding acc by simp
  moreover have "0 \<le> acc" using acc by simp
  moreover have "acc = 100 * real k / real n" using acc by simp
  ultimately show ?thesis unfolding k_def xs_def n_def by blast
qed

theorem test_accuracy_in_range_witness:
  "\<exists>acc avg m'. test \<lparr>dataset = val_set10, batch_size = 4, shuffle = False\<rparr> id
       (const_model [1, 0, 0]) (fresh_net [1, 2]) = Inr ((acc, avg), m') \<and>
     0 \<le> acc \<and> acc \<le> 100"
proof -
  have "shuffle \<lparr>dataset = val_set10, batch_size = 4, shuffle = False\<rparr> \<Longrightarrow>
      mset (id (dataset \<lparr>dataset = val_set10, batch_size = 4, shuffle = False\<rparr>)) =
      mset (dataset \<lparr>dataset = val_set10, batch_size = 4, shuffle = False\<rparr>)"
    by simp
  from test_accuracy_in_range [OF test_example this] test_example
  show ?thesis by blast
qed

text \<open>
  C7. \<^verbatim>\<open>argmax\<close> of a score row is the index \<open>i\<close> of a largest score such that
  every score before \<open>i\<close> is strictly smaller: among tied maxima, the first. In the loop
  of \<^verbatim>\<open>test\<close> the count \<^verbatim>\<open>correct\<close> grows by the number of samples whose
  \<^verbatim>\<open>argmax\<close> is their label, and the accuracy returned is that count over the
  size of the dataset, times 100.
\<close>

theorem correct_means_first_argmax_is_label:
  "(argmax row = Inr i \<longleftrightarrow>
      i < length row \<and> (\<forall>j < length row. row ! j \<le> row ! i) \<and> (\<forall>j < i. row ! j < row ! i)) \<and>
   (test_loop c bs ((rl, co), m) = Inr ((rl', co'), m') \<longrightarrow>
      co' = co + real (length (filter
              (\<lambda>s. argmax (forward c (training m) (weights m) (fst s)) = Inr (snd s))
              (concat bs)))) \<and>
   (test dl order c n = Inr ((acc, avg), n') \<longrightarrow>
      acc = real (length (filter
              (\<lambda>s. argmax (forward c False (weights n) (fst s)) = Inr (snd s))
              (concat (iter_dataloader dl order)))) / real (length (dataset dl)) * 100)"
proof (intro conjI impI)
  show "argmax row = Inr i \<longleftrightarrow>
      i < length row \<and> (\<forall>j < length row. row ! j \<le> row ! i) \<and> (\<forall>j < i. row ! j < row ! i)"
    by (rule argmax_iff)
  show "co' = co + real (length (filter
              (\<lambda>s. argmax (forward c (training m) (weights m) (fst s)) = Inr (snd s))
              (concat bs)))"
    if "test_loop c bs ((rl, co), m) = Inr ((rl', co'), m')"
    using test_loop_sums [OF that] by (simp add: is_correct_def [abs_def])
  show "acc = real (length (filter
              (\<lambda>s. argmax (forward c False (weights n) (fst s)) = Inr (snd s))
              (concat (iter_dataloader dl order)))) / real (length (dataset dl)) * 100"
    if "test dl order c n = Inr ((acc, avg), n')"
    using test_result(5) [OF that] by (simp add: is_correct_def [abs_def])
qed

theorem correct_means_first_argmax_is_label_witness:
  "argmax [1, 3, 2, 3] = Inr 1 \<and>
   (30 :: real) = real (length (filter
      (\<lambda>s. argmax (forward (const_model [1, 0, 0]) False (weights (fresh_net [1, 2])) (fst s))
             = Inr (snd s))
      (concat (iter_dataloader \<lparr>dataset = val_set10, batch_size = 4, shuffle = False\<rparr> id))))
     / real (length (dataset \<lparr>dataset = val_set10, batch_size = 4, shuffle = False\<rparr>)) * 100"
proof -
  have "(1::nat) < length [1, 3, 2, 3 :: real] \<and>
      (\<forall>j < length [1, 3, 2, 3 :: real]. [1, 3, 2, 3 :: real] ! j \<le> [1, 3, 2, 3] ! 1) \<and>
      (\<forall>j < (1::nat). [1, 3, 2, 3 :: real] ! j < [1, 3, 2, 3] ! 1)"
    by (auto simp: less_Suc_eq numeral_eq_Suc)
  with correct_means_first_argmax_is_label [of "[1, 3, 2, 3]" 1 "const_model [1, 0, 0]" "[]" 0 0
      "fresh_net [1, 2]" 0 0 "fresh_net [1, 2]"
      "\<lparr>dataset = val_set10, batch_size = 4, shuffle = False\<rparr>" id "fresh_net [1, 2]" 30 1]
    test_example
  show ?thesis by blast
qed

text \<open>
  C8. On ten validation samples with the labels 0, 0, 0, 1, 1, 1, 2, 2, 2, 2 and a model
  with three classes whose \<^verbatim>\<open>argmax\<close> is always class 0, \<^verbatim>\<open>test\<close> returns the
  accuracy 30, whatever the batch size and the loss function.
\<close>

theorem always_class0_accuracy_30:
  assumes "map snd (dataset dl) = [0, 0, 0, 1, 1, 1, 2, 2, 2, 2]"
    and "0 < batch_size dl"
    and "\<forall>mode w x. length (forward c mode w x) = 3 \<and> argmax (forward c mode w x) = Inr 0"
    and "shuffle dl \<Longrightarrow> mset (order (dataset dl)) = mset (dataset dl)"
  shows "\<exists>avg m'. test dl order c m = Inr ((30, avg), m')"
proof -
  have ne: "dataset dl \<noteq> []" using assms(1) by auto
  have rows: "\<forall>x. forward c False (weights m) x \<noteq> []"
    using assms(3) by (metis length_0_conv zero_neq_numeral)
  from test_succeeds [OF assms(2) ne rows]
  obtain acc avg m' where t: "test dl order c m = Inr ((acc, avg), m')" by blast
  define xs where "xs = (if shuffle dl then order (dataset dl) else dataset dl)"
  have ms: "mset xs = mset (dataset dl)" using assms(4) by (simp add: xs_def)
  have corr: "is_correct c False (weights m) = (\<lambda>s. snd s = 0)"
    using assms(3) by (auto simp: is_correct_def fun_eq_iff)
  have "length (filter (\<lambda>s. snd s = 0) xs) = size (filter_mset (\<lambda>s. snd s = 0) (mset xs))"
    by (metis mset_filter size_mset)
  also have "\<dots> = length (filter (\<lambda>s. snd s = 0) (dataset dl))"
    unfolding ms by (metis mset_filter size_mset)
  also have "\<dots> = length (filter (\<lambda>l. l = 0) (map snd (dataset dl)))"
    by (simp add: filter_map comp_def)
  also have "\<dots> = 3" unfolding assms(1) by simp
  finally have k: "length (filter (\<lambda>s. snd s = 0) xs) = 3" .
  have "length (dataset dl) = length (map snd (dataset dl))" by simp
  also have "\<dots> = 10" unfolding assms(1) by simp
  finally have n: "length (dataset dl) = 10" .
  have "acc = 30"
    using test_result(5) [OF t] assms(2) by (simp add: concat_iter_dataloader corr k n xs_def [symmetric])
  with t show ?thesis by blast
qed

theorem always_class0_accuracy_30_witness:
  "\<exists>avg m'. test \<lparr>dataset = val_set10, batch_size = 4, shuffle = False\<rparr> id
      (const_model [1, 0, 0]) (fresh_net [1, 2]) = Inr ((30, avg), m')"
  using always_class0_accuracy_30 [of "\<lparr>dataset = val_set10, batch_size = 4, shuffle = False\<rparr>"
      "const_model [1, 0, 0]" id "fresh_net [1, 2]"]
  by (simp add: val_set10_def const_model_def argmax_def)

text \<open>
  C9. What a completed run has printed. The demonstration loop prints one progress line
  for every fifth epoch (the epochs \<open>e\<close> with \<open>e mod 5 = 0\<close>, numbered \<open>e + 1\<close> in the
  line), and the exercise copy prints these and one more for the last epoch. A progress
  line holds the epoch number and the train loss, validation loss and validation
  accuracy of that epoch. After the loop comes the best score: it is the last line, and
  the only line of its kind.
\<close>

theorem progress_every_fifth_epoch:
  "(demo_run tdl vdl rng c m = Inr r \<longrightarrow>
      stdout r =
        map (\<lambda>e. progress_line (e, epoch_metrics tdl vdl rng c [0..<epochs] m ! e))
          (filter (\<lambda>e. e mod 5 = 0) [0..<epochs]) @ [BestScore (best_score r)] \<and>
      length (filter is_best_score (stdout r)) = 1 \<and>
      train_losses r = map fst (epoch_metrics tdl vdl rng c [0..<epochs] m) \<and>
      val_losses r = map (fst \<circ> snd) (epoch_metrics tdl vdl rng c [0..<epochs] m)) \<and>
   (exercise_run tdl vdl rng c m = Inr r' \<longrightarrow>
      stdout r' =
        map (\<lambda>e. progress_line (e, epoch_metrics tdl vdl rng c [0..<epochs] m ! e))
          (filter (\<lambda>e. e mod 5 = 0 \<or> e + 1 = epochs) [0..<epochs]) @ [BestScore (best_score r')] \<and>
      length (filter is_best_score (stdout r')) = 1 \<and>
      train_losses r' = map fst (epoch_metrics tdl vdl rng c [0..<epochs] m) \<and>
      val_losses r' = map (fst \<circ> snd) (epoch_metrics tdl vdl rng c [0..<epochs] m)) \<and>
   progress_line (e, train_loss, val_loss, val_correct) =
     Progress (e + 1) train_loss val_loss val_correct"
proof (intro conjI impI)
  assume d: "demo_run tdl vdl rng c m = Inr r"
  note s = training_run_stdout [OF d [unfolded demo_run_def]]
  show o: "stdout r =
        map (\<lambda>e. progress_line (e, epoch_metrics tdl vdl rng c [0..<epochs] m ! e))
          (filter (\<lambda>e. e mod 5 = 0) [0..<epochs]) @ [BestScore (best_score r)]"
    using s(1) by (simp add: report_demo_def [abs_def])
  show "length (filter is_best_score (stdout r)) = 1"
    unfolding o by (simp add: is_best_score_progress)
  show "train_losses r = map fst (epoch_metrics tdl vdl rng c [0..<epochs] m)" by (rule s(3))
  show "val_losses r = map (fst \<circ> snd) (epoch_metrics tdl vdl rng c [0..<epochs] m)" by (rule s(4))
next
  assume d: "exercise_run tdl vdl rng c m = Inr r'"
  note s = training_run_stdout [OF d [unfolded exercise_run_def]]
  show o: "stdout r' =
        map (\<lambda>e. progress_line (e, epoch_metrics tdl vdl rng c [0..<epochs] m ! e))
          (filter (\<lambda>e. e mod 5 = 0 \<or> e + 1 = epochs) [0..<epochs]) @ [BestScore (best_score r')]"
    using s(1) by (simp add: report_exercise_def [abs_def])
  show "length (filter is_best_score (stdout r')) = 1"
    unfolding o by (simp add: is_best_score_progress)
  show "train_losses r' = map fst (epoch_metrics tdl vdl rng c [0..<epochs] m)" by (rule s(3))
  show "val_losses r' = map (fst \<circ> snd) (epoch_metrics tdl vdl rng c [0..<epochs] m)" by (rule s(4))
next
  show "progress_line (e, train_loss, val_loss, val_correct) =
     Progress (e + 1) train_loss val_loss val_correct"
    by (simp add: progress_line_def)
qed

theorem progress_every_fifth_epoch_witness:
  "\<exists>r r'.
     demo_run \<lparr>dataset = train_set8, batch_size = 4, shuffle = True\<rparr>
       \<lparr>dataset = val_set10, batch_size = 4, shuffle = False\<rparr> (\<lambda>k. rev)
       (const_model [1, 0, 0]) (fresh_net [1, 2]) = Inr r \<and>
     exercise_run \<lparr>dataset = train_set8, batch_size = 4, shuffle = True\<rparr>
       \<lparr>dataset = val_set10, batch_size = 4, shuffle = False\<rparr> (\<lambda>k. rev)
       (const_model [1, 0, 0]) (fresh_net [1, 2]) = Inr r' \<and>
     length (stdout r) = 21 \<and> length (stdout r') = 22 \<and>
     last (stdout r) = BestScore (best_score r) \<and>
     last (stdout r') = BestScore (best_score r') \<and>
     length (filter is_best_score (stdout r)) = 1 \<and>
     length (filter is_best_score (stdout r')) = 1"
proof -
  let ?tdl = "\<lparr>dataset = train_set8, batch_size = 4, shuffle = True\<rparr>"
  let ?vdl = "\<lparr>dataset = val_set10, batch_size = 4, shuffle = False\<rparr>"
  have "\<exists>r. training_run report_demo epochs ?tdl ?vdl (\<lambda>k. rev) (const_model [1, 0, 0])
      (fresh_net [1, 2]) = Inr r"
    by (rule training_run_succeeds) (simp_all add: train_set8_def val_set10_def const_model_def)
  then obtain r where r: "demo_run ?tdl ?vdl (\<lambda>k. rev) (const_model [1, 0, 0])
      (fresh_net [1, 2]) = Inr r"
    unfolding demo_run_def ..
  have "\<exists>r. training_run report_exercise epochs ?tdl ?vdl (\<lambda>k. rev) (const_model [1, 0, 0])
      (fresh_net [1, 2]) = Inr r"
    by (rule training_run_succeeds) (simp_all add: train_set8_def val_set10_def const_model_def)
  then obtain r' where r': "exercise_run ?tdl ?vdl (\<lambda>k. rev) (const_model [1, 0, 0])
      (fresh_net [1, 2]) = Inr r'"
    unfolding exercise_run_def ..
  note th = progress_every_fifth_epoch [of ?tdl ?vdl "\<lambda>k. rev" "const_model [1, 0, 0]"
      "fresh_net [1, 2]" r r' 0 0 0 0]
  from th r have d: "stdout r =
        map (\<lambda>e. progress_line (e, epoch_metrics ?tdl ?vdl (\<lambda>k. rev) (const_model [1, 0, 0])
          [0..<epochs] (fresh_net [1, 2]) ! e))
          (filter (\<lambda>e. e mod 5 = 0) [0..<epochs]) @ [BestScore (best_score r)]"
    and d1: "length (filter is_best_score (stdout r)) = 1"
    by blast+
  from th r' have x: "stdout r' =
        map (\<lambda>e. progress_line (e, epoch_metrics ?tdl ?vdl (\<lambda>k. rev) (const_model [1, 0, 0])
          [0..<epochs] (fresh_net [1, 2]) ! e))
          (filter (\<lambda>e. e mod 5 = 0 \<or> e + 1 = epochs) [0..<epochs]) @ [BestScore (best_score r')]"
    and x1: "length (filter is_best_score (stdout r')) = 1"
    by blast+
  have "length (stdout r) = 21" unfolding d epochs_def by (simp add: count_fifth)
  moreover have "length (stdout r') = 22" unfolding x epochs_def by (simp add: count_fifth_last)
  moreover have "last (stdout r) = BestScore (best_score r)" unfolding d by simp
  moreover have "last (stdout r') = BestScore (best_score r')" unfolding x by simp
  ultimately show ?thesis using r r' d1 x1 by blast
qed

text \<open>
  C10. A loader that yields no batch makes both \<^verbatim>\<open>train\<close> and \<^verbatim>\<open>test\<close> raise
  \<^verbatim>\<open>ZeroDivisionError\<close> at the average loss; the division of the count by the size of
  the dataset in \<^verbatim>\<open>test\<close> is a division by zero too when the dataset is empty.
  When the loader yields a batch and the dataset is not empty, \<^verbatim>\<open>train\<close> returns and
  \<^verbatim>\<open>test\<close> does not raise \<^verbatim>\<open>ZeroDivisionError\<close>; a positive batch size and a
  non-empty dataset are enough for the loader to yield a batch.
\<close>

theorem zero_batches_divide_by_zero:
  assumes "shuffle dl \<Longrightarrow> mset (order (dataset dl)) = mset (dataset dl)"
  shows "(iter_dataloader dl order = [] \<longrightarrow>
            train dl order c m = Inl ZeroDivisionError \<and>
            test dl order c m = Inl ZeroDivisionError) \<and>
         (dataset dl = [] \<longrightarrow>
            truediv correct (length (dataset dl)) = Inl ZeroDivisionError) \<and>
         (iter_dataloader dl order \<noteq> [] \<and> dataset dl \<noteq> [] \<longrightarrow>
            (\<exists>avg m'. train dl order c m = Inr (avg, m')) \<and>
            test dl order c m \<noteq> Inl ZeroDivisionError) \<and>
         (0 < batch_size dl \<and> dataset dl \<noteq> [] \<longrightarrow> iter_dataloader dl order \<noteq> [])"
proof (intro conjI impI)
  assume e: "iter_dataloader dl order = []"
  from iter_dataloader_empty [OF e assms] have len: "len_dataloader dl = 0" by simp
  then show "train dl order c m = Inl ZeroDivisionError" by (simp add: train_eq)
  from e len show "test dl order c m = Inl ZeroDivisionError" by (rule test_empty)
next
  assume "dataset dl = []"
  then show "truediv correct (length (dataset dl)) = Inl ZeroDivisionError"
    by (simp add: truediv_def)
next
  assume a: "iter_dataloader dl order \<noteq> [] \<and> dataset dl \<noteq> []"
  have b: "0 < batch_size dl"
  proof (rule ccontr)
    assume "\<not> 0 < batch_size dl"
    then have "iter_dataloader dl order = []"
      by (simp add: iter_dataloader_def chunks.simps)
    with a show False by simp
  qed
  with a have pos: "0 < len_dataloader dl" by (simp add: len_dataloader_pos)
  then show "\<exists>avg m'. train dl order c m = Inr (avg, m')" by (simp add: train_eq)
  from a b show "test dl order c m \<noteq> Inl ZeroDivisionError" by (simp add: test_no_zero_division)
next
  assume a: "0 < batch_size dl \<and> dataset dl \<noteq> []"
  then have pos: "0 < len_dataloader dl" by (simp add: len_dataloader_pos)
  have "shuffle dl \<Longrightarrow> length (order (dataset dl)) = length (dataset dl)"
    using assms by (metis size_mset)
  with a pos show "iter_dataloader dl order \<noteq> []"
    using length_iter_dataloader [of dl order] by auto
qed

theorem zero_batches_divide_by_zero_witness:
  "train \<lparr>dataset = [], batch_size = 4, shuffle = False\<rparr> id (const_model [1, 0, 0]) (fresh_net [1, 2])
     = Inl ZeroDivisionError \<and>
   test \<lparr>dataset = [], batch_size = 4, shuffle = False\<rparr> id (const_model [1, 0, 0]) (fresh_net [1, 2])
     = Inl ZeroDivisionError \<and>
   (\<exists>avg m'. train \<lparr>dataset = val_set10, batch_size = 4, shuffle = False\<rparr> id
      (const_model [1, 0, 0]) (fresh_net [1, 2]) = Inr (avg, m')) \<and>
   test \<lparr>dataset = val_set10, batch_size = 4, shuffle = False\<rparr> id
      (const_model [1, 0, 0]) (fresh_net [1, 2]) \<noteq> Inl ZeroDivisionError"
  using zero_batches_divide_by_zero [of "\<lparr>dataset = [], batch_size = 4, shuffle = False\<rparr>" id
      "const_model [1, 0, 0]" "fresh_net [1, 2]" 0]
    zero_batches_divide_by_zero [of "\<lparr>dataset = val_set10, batch_size = 4, shuffle = False\<rparr>" id
      "const_model [1, 0, 0]" "fresh_net [1, 2]" 0]
  by (simp add: iter_dataloader_def chunks_Nil chunks_step val_set10_def)

end
